theory Spec2Isabelle
  imports Complex_Main "HOL-Library.Word"
begin

section \<open>Values\<close>

text \<open>
  The two programs (\<^verbatim>\<open>wind_analysis.py\<close>, prefix \<open>wa_\<close>, and
  \<^verbatim>\<open>power_power_factor.py\<close>, prefix \<open>pf_\<close>) work on pandas data frames whose numeric
  columns are of dtype float64 or int64.

  A float64 value is a finite number, one of the two zeros, an infinity or NaN. \<open>Fin x\<close>
  stands for the finite value \<open>x\<close>, \<open>Fin 0\<close> being the positive zero and \<open>NZero\<close> the
  negative one. The arithmetic is that of IEEE 754: an operation returns the exact result
  rounded to the nearest value with a significand of 53 bits, a tie going to the even
  one (\<open>round64\<close>, with gradual underflow below \<open>2 ^ (-1022)\<close>); a rounded result above the
  largest finite value is an infinity; an invalid operation returns NaN and raises
  nothing.
\<close>

subsection \<open>Rounding\<close>

text \<open>\<^verbatim>\<open>numpy.rint\<close>, which \<^verbatim>\<open>Series.round\<close> and \<^verbatim>\<open>round(Series)\<close> use: to the
  nearest integer, a tie to the even one.\<close>

definition rint :: "real \<Rightarrow> real" where
  "rint x =
     (let f = floor x; d = x - of_int f
      in if d < 1 / 2 then of_int f
         else if d > 1 / 2 then of_int (f + 1)
         else if even f then of_int f else of_int (f + 1))"

text \<open>The exponent of the last bit of the float64 values around \<open>x\<close>, and the rounding of
  a real number to float64 while the result is in range.\<close>

definition fexp :: "real \<Rightarrow> int" where
  "fexp x = max (\<lfloor>log 2 \<bar>x\<bar>\<rfloor> - 52) (- 1074)"

definition round64 :: "real \<Rightarrow> real" where
  "round64 x =
     (if x = 0 then 0
      else rint (x / 2 powr of_int (fexp x)) * 2 powr of_int (fexp x))"

definition max_float :: real where
  "max_float = (2 ^ 53 - 1) * 2 ^ 971"

subsection \<open>Float64 arithmetic\<close>

datatype fl = Fin real | NZero | PInf | NInf | NaN

fun is_nan :: "fl \<Rightarrow> bool" where
  "is_nan NaN = True"
| "is_nan _ = False"

fun is_inf :: "fl \<Rightarrow> bool" where
  "is_inf PInf = True"
| "is_inf NInf = True"
| "is_inf _ = False"

fun is_finite :: "fl \<Rightarrow> bool" where
  "is_finite (Fin x) = True"
| "is_finite NZero = True"
| "is_finite _ = False"

fun fl_val :: "fl \<Rightarrow> real" where
  "fl_val (Fin x) = x"
| "fl_val _ = 0"

text \<open>The sign bit.\<close>

fun is_neg :: "fl \<Rightarrow> bool" where
  "is_neg (Fin x) = (x < 0)"
| "is_neg NZero = True"
| "is_neg NInf = True"
| "is_neg _ = False"

definition is_zero :: "fl \<Rightarrow> bool" where
  "is_zero a = (is_finite a \<and> fl_val a = 0)"

definition fl_inf :: "bool \<Rightarrow> fl" where
  "fl_inf neg = (if neg then NInf else PInf)"

definition fl_zero :: "bool \<Rightarrow> fl" where
  "fl_zero neg = (if neg then NZero else Fin 0)"

text \<open>The float64 value of an exact result \<open>x\<close> whose sign bit is \<open>neg\<close>.\<close>

definition fl_round :: "bool \<Rightarrow> real \<Rightarrow> fl" where
  "fl_round neg x =
     (let y = round64 x
      in if y > max_float then PInf
         else if y < - max_float then NInf
         else if y = 0 then fl_zero neg
         else Fin y)"

definition fl_mul :: "fl \<Rightarrow> fl \<Rightarrow> fl" where
  "fl_mul a b =
     (if is_nan a \<or> is_nan b then NaN
      else if is_inf a \<or> is_inf b
        then (if is_zero a \<or> is_zero b then NaN else fl_inf (is_neg a \<noteq> is_neg b))
      else fl_round (is_neg a \<noteq> is_neg b) (fl_val a * fl_val b))"

definition fl_div :: "fl \<Rightarrow> fl \<Rightarrow> fl" where
  "fl_div a b =
     (if is_nan a \<or> is_nan b then NaN
      else if is_inf a then (if is_inf b then NaN else fl_inf (is_neg a \<noteq> is_neg b))
      else if is_inf b then fl_zero (is_neg a \<noteq> is_neg b)
      else if is_zero b then (if is_zero a then NaN else fl_inf (is_neg a \<noteq> is_neg b))
      else fl_round (is_neg a \<noteq> is_neg b) (fl_val a / fl_val b))"

definition fl_add :: "fl \<Rightarrow> fl \<Rightarrow> fl" where
  "fl_add a b =
     (if is_nan a \<or> is_nan b then NaN
      else if is_inf a then (if is_inf b \<and> is_neg a \<noteq> is_neg b then NaN else a)
      else if is_inf b then b
      else if fl_val a + fl_val b = 0 then fl_zero (is_neg a \<and> is_neg b)
      else fl_round (fl_val a + fl_val b < 0) (fl_val a + fl_val b))"

text \<open>\<open>x ** 3\<close> of numpy on a float64 cell is \<^verbatim>\<open>pow(x, 3.0)\<close> of the C library, taken
  here as correctly rounded.\<close>

definition fl_pow3 :: "fl \<Rightarrow> fl" where
  "fl_pow3 a =
     (if is_nan a then NaN
      else if is_inf a then a
      else fl_round (is_neg a) (fl_val a ^ 3))"

text \<open>The comparisons: false whenever an operand is NaN; the two zeros are equal.\<close>

definition fl_lt :: "fl \<Rightarrow> fl \<Rightarrow> bool" where
  "fl_lt a b =
     (\<not> is_nan a \<and> \<not> is_nan b \<and> a \<noteq> PInf \<and> b \<noteq> NInf \<and>
      (a = NInf \<or> b = PInf \<or> fl_val a < fl_val b))"

definition fl_gt :: "fl \<Rightarrow> fl \<Rightarrow> bool" where
  "fl_gt a b = fl_lt b a"

text \<open>\<^verbatim>\<open>Series.mean()\<close> of a float column: NaN cells are skipped, the mean of no cell
  is NaN, and the mean of the others is their sum, taken in the order of the rows,
  divided by their number.\<close>

definition series_mean :: "fl list \<Rightarrow> fl" where
  "series_mean xs =
     (let ys = filter (\<lambda>x. \<not> is_nan x) xs
      in if ys = [] then NaN else fl_div (foldl fl_add (Fin 0) ys) (Fin (real (length ys))))"

subsection \<open>Cells of the frames\<close>

text \<open>
  The aggregations of the programs regroup and average cells. They are modelled on
  frames whose numeric cells are the real numbers that finite float64 cells stand for,
  the sum and the quotient of a mean being those of the real numbers.
\<close>

text \<open>The mean of a column of finite cells; pandas applies it to the members of a group,
  of which there is at least one.\<close>

definition mean :: "real list \<Rightarrow> real" where
  "mean xs = sum_list xs / real (length xs)"

text \<open>\<^verbatim>\<open>Series.round(1)\<close>: numpy scales by ten, rounds to an integer and scales back, in
  float64 arithmetic, so that the product and the quotient are rounded.\<close>

definition round1 :: "real \<Rightarrow> real" where
  "round1 x = round64 (rint (round64 (x * 10)) / 10)"

text \<open>The exceptions of Python the programs can raise; \<open>Exception e\<close> is the
  \<^verbatim>\<open>Exception\<close> a handler raises in place of \<open>e\<close>, whose message it carries.\<close>

datatype py_error =
  IndexError | KeyError | ValueError | TypeError | AttributeError | Exception py_error

subsection \<open>Times of day\<close>

record time =
  tm_hour :: nat
  tm_min :: nat
  tm_sec :: nat
  tm_usec :: nat

record datetime =
  dt_day :: int
  dt_time :: time

text \<open>A cell of the column \<^verbatim>\<open>TM\<close>: a string, a \<^verbatim>\<open>datetime.time\<close> or a
  \<^verbatim>\<open>datetime.datetime\<close>.\<close>

datatype tmval = TmStr string | TmTime time | TmDatetime datetime

fun is_str :: "tmval \<Rightarrow> bool" where
  "is_str (TmStr s) = True"
| "is_str _ = False"

fun is_time :: "tmval \<Rightarrow> bool" where
  "is_time (TmTime t) = True"
| "is_time _ = False"

fun is_datetime :: "tmval \<Rightarrow> bool" where
  "is_datetime (TmDatetime d) = True"
| "is_datetime _ = False"

text \<open>An instant is a number of microseconds since the start of day 0.\<close>

type_synonym instant = int

definition usec_of_time :: "time \<Rightarrow> int" where
  "usec_of_time t =
     ((int (tm_hour t) * 60 + int (tm_min t)) * 60 + int (tm_sec t)) * 1000000 + int (tm_usec t)"

definition usec_per_day :: int where
  "usec_per_day = 86400000000"

definition usec_per_minute :: int where
  "usec_per_minute = 60000000"

text \<open>\<^verbatim>\<open>datetime.combine(date, t)\<close>, the date given by its day number.\<close>

definition combine :: "int \<Rightarrow> time \<Rightarrow> instant" where
  "combine day t = day * usec_per_day + usec_of_time t"

text \<open>\<^verbatim>\<open>Series.dt.round('1min')\<close>: pandas rounds to the nearest multiple of the unit, a
  tie (exactly thirty seconds) to the even multiple.\<close>

definition round_1min :: "instant \<Rightarrow> instant" where
  "round_1min v =
     (let q = v div usec_per_minute; r = v mod usec_per_minute; half = usec_per_minute div 2
      in if r > half then (q + 1) * usec_per_minute
         else if r = half \<and> odd q then (q + 1) * usec_per_minute
         else q * usec_per_minute)"

section \<open>Power coefficient\<close>

text \<open>\<^verbatim>\<open>np.where(c, a, b)\<close> and \<^verbatim>\<open>np.clip(a, lo, hi)\<close> on one cell. \<^verbatim>\<open>np.where\<close>
  computes both arms for every cell and keeps the selected one: the quotient by a zero
  denominator is computed and dropped. \<^verbatim>\<open>np.clip\<close> is the minimum with \<open>hi\<close> of the
  maximum with \<open>lo\<close>, and both keep a NaN.\<close>

definition np_where :: "bool \<Rightarrow> 'a \<Rightarrow> 'a \<Rightarrow> 'a" where
  "np_where c a b = (if c then a else b)"

definition np_clip :: "fl \<Rightarrow> fl \<Rightarrow> fl \<Rightarrow> fl" where
  "np_clip a lo hi =
     (let m = (if is_nan a then a else if fl_gt a lo then a else lo)
      in if is_nan m then m else if fl_lt m hi then m else hi)"

text \<open>The function on one cell of the two columns. The literals \<open>0.1\<close> and \<open>0.593\<close> are
  the float64 values nearest to them.\<close>

definition calculate_power_coefficient :: "fl \<Rightarrow> fl \<Rightarrow> fl \<Rightarrow> fl \<Rightarrow> fl \<Rightarrow> fl" where
  "calculate_power_coefficient power_ac wind_speed air_density rotor_diameter rotor_height =
     (let area = fl_mul rotor_height rotor_diameter;
          wind_speed' = np_where (fl_lt wind_speed (Fin (round64 0.1))) (Fin (round64 0.1))
                          wind_speed;
          denominator = fl_mul (fl_mul (fl_mul (Fin 0.5) air_density) area) (fl_pow3 wind_speed');
          cp = np_where (fl_gt denominator (Fin 0))
                 (fl_div (fl_mul power_ac (Fin 1000)) denominator) (Fin 0)
      in np_clip cp (Fin 0) (Fin (round64 0.593)))"

section \<open>Data frames\<close>

text \<open>
  A data frame is a record of columns. The columns of the input table are always there
  (the numeric ones and \<^verbatim>\<open>TM\<close>); the status column \<^verbatim>\<open>CODE 1\<close> and every column the
  programs add are optional, \<open>None\<close> standing for a column the frame does not have, whose
  access raises \<^verbatim>\<open>KeyError\<close>. In a frame of pandas all columns have the length of
  the frame (\<open>frame_ok\<close>).
\<close>

record frame =
  Vdc :: "real list"
  Idc :: "real list"
  Euv :: "real list"
  Evw :: "real list"
  Ewu :: "real list"
  Iu :: "real list"
  Iv :: "real list"
  Iw :: "real list"
  WSD :: "real list"
  TM :: "tmval list"
  CODE_1 :: "int list option"
  Power_DC :: "real list option"
  Power_AC :: "real list option"
  Efficiency :: "fl list option"
  Cp :: "real list option"
  WSD_rounded :: "real list option"
  WSD_interval :: "real list option"
  PWo_PWi :: "real list option"
  minute_col :: "instant list option"
  Error_Name :: "string option list option"

definition nrows :: "frame \<Rightarrow> nat" where
  "nrows df = length (WSD df)"

definition col_ok :: "nat \<Rightarrow> 'a list option \<Rightarrow> bool" where
  "col_ok n c = (case c of None \<Rightarrow> True | Some xs \<Rightarrow> length xs = n)"

definition frame_ok :: "frame \<Rightarrow> bool" where
  "frame_ok df =
     (let n = nrows df
      in length (Vdc df) = n \<and> length (Idc df) = n \<and> length (Euv df) = n \<and>
         length (Evw df) = n \<and> length (Ewu df) = n \<and> length (Iu df) = n \<and>
         length (Iv df) = n \<and> length (Iw df) = n \<and> length (TM df) = n \<and>
         col_ok n (CODE_1 df) \<and> col_ok n (Power_DC df) \<and> col_ok n (Power_AC df) \<and>
         col_ok n (Efficiency df) \<and> col_ok n (Cp df) \<and> col_ok n (WSD_rounded df) \<and>
         col_ok n (WSD_interval df) \<and> col_ok n (PWo_PWi df) \<and> col_ok n (minute_col df) \<and>
         col_ok n (Error_Name df))"

subsection \<open>Operations of pandas on columns\<close>

text \<open>Arithmetic of two columns of one frame, and of a column and a number, is cell by
  cell.\<close>

definition col_mul :: "real list \<Rightarrow> real list \<Rightarrow> real list" where
  "col_mul a b = map2 (*) a b"

definition col_add :: "real list \<Rightarrow> real list \<Rightarrow> real list" where
  "col_add a b = map2 (+) a b"

definition col_div_const :: "real list \<Rightarrow> real \<Rightarrow> real list" where
  "col_div_const a c = map (\<lambda>x. x / c) a"

definition col_mul_const :: "real list \<Rightarrow> real \<Rightarrow> real list" where
  "col_mul_const a c = map (\<lambda>x. x * c) a"

text \<open>The product and the quotient of a column of finite cells and a number in float64
  arithmetic, for results in range.\<close>

definition col_float_mul :: "real list \<Rightarrow> real \<Rightarrow> real list" where
  "col_float_mul a c = map (\<lambda>x. round64 (x * c)) a"

definition col_float_div_const :: "real list \<Rightarrow> real \<Rightarrow> real list" where
  "col_float_div_const a c = map (\<lambda>x. round64 (x / c)) a"

definition col_div :: "real list \<Rightarrow> real list \<Rightarrow> real list" where
  "col_div a b = map2 (/) a b"

text \<open>The quotient of two columns and the product of a column and a number, in float64
  arithmetic.\<close>

definition col_float_div :: "fl list \<Rightarrow> fl list \<Rightarrow> fl list" where
  "col_float_div a b = map2 fl_div a b"

definition col_float_mul_const :: "fl list \<Rightarrow> real \<Rightarrow> fl list" where
  "col_float_mul_const a c = map (\<lambda>x. fl_mul x (Fin c)) a"

text \<open>\<open>df[mask]\<close>: the rows where the mask holds, in a new frame.\<close>

definition sel :: "bool list \<Rightarrow> 'a list \<Rightarrow> 'a list" where
  "sel keep xs = map snd (filter fst (zip keep xs))"

definition frame_filter :: "bool list \<Rightarrow> frame \<Rightarrow> frame" where
  "frame_filter keep df =
     \<lparr> Vdc = sel keep (Vdc df), Idc = sel keep (Idc df), Euv = sel keep (Euv df),
       Evw = sel keep (Evw df), Ewu = sel keep (Ewu df), Iu = sel keep (Iu df),
       Iv = sel keep (Iv df), Iw = sel keep (Iw df), WSD = sel keep (WSD df),
       TM = sel keep (TM df), CODE_1 = map_option (sel keep) (CODE_1 df),
       Power_DC = map_option (sel keep) (Power_DC df),
       Power_AC = map_option (sel keep) (Power_AC df),
       Efficiency = map_option (sel keep) (Efficiency df),
       Cp = map_option (sel keep) (Cp df),
       WSD_rounded = map_option (sel keep) (WSD_rounded df),
       WSD_interval = map_option (sel keep) (WSD_interval df),
       PWo_PWi = map_option (sel keep) (PWo_PWi df),
       minute_col = map_option (sel keep) (minute_col df),
       Error_Name = map_option (sel keep) (Error_Name df) \<rparr>"

text \<open>\<open>df.groupby(key).agg({c: 'mean', ...}).reset_index()\<close>: one row for each value of
  the key column, in ascending order of the key, holding the key and, for each aggregated
  column, the mean of that column over the rows of the group.\<close>

definition group_vals :: "'k list \<Rightarrow> 'a list \<Rightarrow> 'k \<Rightarrow> 'a list" where
  "group_vals ks vs k = map snd (filter (\<lambda>kv. fst kv = k) (zip ks vs))"

definition groupby_mean :: "('k::linorder) list \<Rightarrow> real list list \<Rightarrow> ('k \<times> real list) list" where
  "groupby_mean ks cols =
     map (\<lambda>k. (k, map (\<lambda>c. mean (group_vals ks c k)) cols)) (sort (remdups ks))"

subsection \<open>Frames as objects\<close>

text \<open>
  A function of the programs receives a reference to a frame and may assign to a column
  of it, which the caller sees. The store is the list of the frames allocated so far; a
  reference is an index into it. An operation returns its outcome (the value, or the
  exception raised) and the store it leaves.
\<close>

type_synonym ref = nat
type_synonym store = "frame list"

definition new_frame :: "frame \<Rightarrow> store \<Rightarrow> ref \<times> store" where
  "new_frame df h = (length h, h @ [df])"

definition set_frame :: "ref \<Rightarrow> frame \<Rightarrow> store \<Rightarrow> store" where
  "set_frame r df h = h[r := df]"

definition get_frame :: "store \<Rightarrow> ref \<Rightarrow> frame" where
  "get_frame h r = h ! r"

section \<open>Reading the table: \<^verbatim>\<open>read_and_process_data\<close>\<close>

text \<open>
  \<open>tbl\<close> is the frame \<^verbatim>\<open>pd.read_excel\<close> returns. \<open>strptime\<close> is the conversion of one
  cell by \<^verbatim>\<open>pd.to_datetime(..., format='%H:%M:%S')\<close> followed by \<^verbatim>\<open>.dt.time\<close>, a
  function of pandas that the programs call; the column is converted cell by cell, and
  the first cell that does not convert raises.
\<close>

fun to_time_col :: "(tmval \<Rightarrow> py_error + time) \<Rightarrow> tmval list \<Rightarrow> py_error + tmval list" where
  "to_time_col strptime [] = Inr []"
| "to_time_col strptime (c # cs) =
     (case strptime c of
        Inl e \<Rightarrow> Inl e
      | Inr t \<Rightarrow>
          (case to_time_col strptime cs of
             Inl e \<Rightarrow> Inl e
           | Inr ts \<Rightarrow> Inr (TmTime t # ts)))"

text \<open>\<open>df['TM'].iloc[0]\<close> raises \<^verbatim>\<open>IndexError\<close> on a frame with no row.\<close>

definition convert_TM :: "(tmval \<Rightarrow> py_error + time) \<Rightarrow> frame \<Rightarrow> py_error + frame" where
  "convert_TM strptime df =
     (case TM df of
        [] \<Rightarrow> Inl IndexError
      | c # cs \<Rightarrow>
          if is_str c then
            (case to_time_col strptime (TM df) of
               Inl e \<Rightarrow> Inl e
             | Inr ts \<Rightarrow> Inr (df\<lparr>TM := ts\<rparr>))
          else Inr df)"

definition wa_read_and_process_data ::
  "(tmval \<Rightarrow> py_error + time) \<Rightarrow> frame \<Rightarrow> real \<Rightarrow> real \<Rightarrow> real \<Rightarrow> py_error + frame" where
  "wa_read_and_process_data strptime tbl air_density rotor_diameter rotor_height =
     (let dc = col_div_const (col_mul (Vdc tbl) (Idc tbl)) 1000;
          df1 = tbl\<lparr>Power_DC := Some dc\<rparr>;
          ac = col_div_const
                 (col_mul_const
                    (col_div_const
                       (col_add (col_add (col_mul (Euv df1) (Iu df1)) (col_mul (Evw df1) (Iv df1)))
                          (col_mul (Ewu df1) (Iw df1))) 3)
                    (sqrt 3)) 1000;
          df2 = df1\<lparr>Power_AC := Some ac\<rparr>;
          df3 = df2\<lparr>Efficiency := Some (col_float_mul_const (col_float_div (map Fin dc) (map Fin ac))
                                        100)\<rparr>;
          df4 = df3\<lparr>Cp := Some (map2 (\<lambda>p w. fl_val (calculate_power_coefficient (Fin p) (Fin w)
                                            (Fin air_density) (Fin rotor_diameter)
                                            (Fin rotor_height))) ac (WSD df3))\<rparr>
      in convert_TM strptime df4)"

definition pf_read_and_process_data ::
  "(tmval \<Rightarrow> py_error + time) \<Rightarrow> frame \<Rightarrow> py_error + frame" where
  "pf_read_and_process_data strptime tbl =
     (let dc = col_div_const (col_mul (Vdc tbl) (Idc tbl)) 1000;
          df1 = tbl\<lparr>Power_DC := Some dc\<rparr>;
          ac = col_div_const
                 (col_mul_const
                    (col_div_const
                       (col_add (col_add (col_mul (Euv df1) (Iu df1)) (col_mul (Evw df1) (Iv df1)))
                          (col_mul (Ewu df1) (Iw df1))) 3)
                    (sqrt 3)) 1000;
          df2 = df1\<lparr>Power_AC := Some ac\<rparr>;
          df3 = df2\<lparr>Efficiency := Some (col_float_mul_const (col_float_div (map Fin dc) (map Fin ac))
                                        100)\<rparr>
      in convert_TM strptime df3)"

section \<open>Aggregation by wind speed: \<^verbatim>\<open>process_wind_speed_data\<close>\<close>

text \<open>In \<^verbatim>\<open>wind_analysis.py\<close> the key column is assigned on the frame the caller
  passed, and every row is grouped.\<close>

definition wa_process_wind_speed_data ::
  "ref \<Rightarrow> store \<Rightarrow> (py_error + (real \<times> real list) list) \<times> store" where
  "wa_process_wind_speed_data r h =
     (let df = get_frame h r;
          ks = col_float_div_const (map rint (col_float_mul (WSD df) 10)) 10;
          h1 = set_frame r (df\<lparr>WSD_rounded := Some ks\<rparr>) h;
          df1 = get_frame h1 r
      in (case (Power_DC df1, Power_AC df1, Cp df1) of
            (Some dc, Some ac, Some cp) \<Rightarrow> Inr (groupby_mean ks [dc, ac, cp])
          | _ \<Rightarrow> Inl KeyError,
          h1))"

text \<open>In \<^verbatim>\<open>power_power_factor.py\<close> the name \<open>df\<close> is first bound to the frame of the
  rows with \<open>WSD >= 3\<close>, a new frame, and the key column is assigned on that one.\<close>

definition pf_process_wind_speed_data ::
  "ref \<Rightarrow> store \<Rightarrow> (py_error + (real \<times> real list) list) \<times> store" where
  "pf_process_wind_speed_data r h =
     (let df = get_frame h r;
          (r1, h1) = new_frame (frame_filter (map (\<lambda>w. w \<ge> 3) (WSD df)) df) h;
          df1 = get_frame h1 r1;
          ks = map round1 (WSD df1);
          h2 = set_frame r1 (df1\<lparr>WSD_rounded := Some ks\<rparr>) h1;
          df2 = get_frame h2 r1
      in (case (Power_DC df2, Power_AC df2) of
            (Some dc, Some ac) \<Rightarrow> Inr (groupby_mean ks [dc, ac])
          | _ \<Rightarrow> Inl KeyError,
          h2))"

section \<open>Aggregation by minute: \<^verbatim>\<open>process_time_data\<close>\<close>

text \<open>
  \<open>today\<close> is the day number of \<^verbatim>\<open>datetime.today()\<close>, which the function reads from the
  clock of the machine for each row; the model takes one value for the whole call.
  \<open>to_datetime\<close> is \<^verbatim>\<open>pd.to_datetime\<close> on a column, called when the first cell is neither
  a time nor a datetime. Whatever is raised is raised again as an \<^verbatim>\<open>Exception\<close>.
\<close>

fun map_err :: "('a \<Rightarrow> py_error + 'b) \<Rightarrow> 'a list \<Rightarrow> py_error + 'b list" where
  "map_err f [] = Inr []"
| "map_err f (x # xs) =
     (case f x of
        Inl e \<Rightarrow> Inl e
      | Inr y \<Rightarrow> (case map_err f xs of Inl e \<Rightarrow> Inl e | Inr ys \<Rightarrow> Inr (y # ys)))"

fun combine_time :: "int \<Rightarrow> tmval \<Rightarrow> py_error + instant" where
  "combine_time today (TmTime t) = Inr (combine today t)"
| "combine_time today _ = Inl TypeError"

fun combine_datetime :: "int \<Rightarrow> tmval \<Rightarrow> py_error + instant" where
  "combine_datetime today (TmDatetime d) = Inr (combine today (dt_time d))"
| "combine_datetime today _ = Inl AttributeError"

definition wa_process_time_data ::
  "int \<Rightarrow> (tmval list \<Rightarrow> py_error + instant list) \<Rightarrow> ref \<Rightarrow> store
     \<Rightarrow> (py_error + (instant \<times> real list) list) \<times> store" where
  "wa_process_time_data today to_datetime r h =
     (let df = get_frame h r;
          (r1, h1) = new_frame df h;
          df_copy = get_frame h1 r1
      in case TM df_copy of
           [] \<Rightarrow> (Inl (Exception IndexError), h1)
         | c # cs \<Rightarrow>
             (case (if is_time c then map_err (combine_time today) (TM df_copy)
                    else if is_datetime c then map_err (combine_datetime today) (TM df_copy)
                    else to_datetime (TM df_copy)) of
                Inl e \<Rightarrow> (Inl (Exception e), h1)
              | Inr ms \<Rightarrow>
                  let h2 = set_frame r1 (df_copy\<lparr>minute_col := Some ms\<rparr>) h1;
                      df2 = get_frame h2 r1;
                      ks = map round_1min ms;
                      h3 = set_frame r1 (df2\<lparr>minute_col := Some ks\<rparr>) h2;
                      df3 = get_frame h3 r1
                  in (case (Power_DC df3, Power_AC df3, Cp df3) of
                        (Some dc, Some ac, Some cp) \<Rightarrow> Inr (groupby_mean ks [dc, ac, WSD df3, cp])
                      | _ \<Rightarrow> Inl (Exception KeyError),
                      h3)))"

section \<open>Status timeline: \<^verbatim>\<open>find_error_time_ranges\<close>\<close>

text \<open>\<open>xs[j]\<close> of Python: a negative index counts from the end, and an index out of
  range raises \<^verbatim>\<open>IndexError\<close>.\<close>

definition py_index :: "'a list \<Rightarrow> int \<Rightarrow> py_error + 'a" where
  "py_index xs j =
     (let n = int (length xs); k = (if j < 0 then n + j else j)
      in if 0 \<le> k \<and> k < n then Inr (xs ! nat k) else Inl IndexError)"

text \<open>\<open>d[k].append(v)\<close> on a \<^verbatim>\<open>defaultdict(list)\<close>, which keeps its keys in the order of
  their first insertion.\<close>

fun dd_append :: "'k \<Rightarrow> 'v \<Rightarrow> ('k \<times> 'v list) list \<Rightarrow> ('k \<times> 'v list) list" where
  "dd_append k v [] = [(k, [v])]"
| "dd_append k v ((k', vs) # d) =
     (if k = k' then (k', vs @ [v]) # d else (k', vs) # dd_append k v d)"

text \<open>The variables of the loop. \<open>start_time\<close> and \<open>current_code\<close> are \<^verbatim>\<open>None\<close> at first;
  a range is the pair of \<open>start_time\<close> and the time of the last row of the run.\<close>

type_synonym time_range = "tmval option \<times> tmval"

record scan_state =
  error_ranges :: "(int \<times> time_range list) list"
  current_code :: "int option"
  start_time :: "tmval option"

definition save_range :: "tmval list \<Rightarrow> int \<Rightarrow> scan_state \<Rightarrow> py_error + scan_state" where
  "save_range tms j st =
     (case current_code st of
        None \<Rightarrow> Inr st
      | Some cc \<Rightarrow>
          if cc \<noteq> 16 then
            (case py_index tms j of
               Inl e \<Rightarrow> Inl e
             | Inr t \<Rightarrow> Inr (st\<lparr>error_ranges := dd_append cc (start_time st, t) (error_ranges st)\<rparr>))
          else Inr st)"

definition scan_step :: "tmval list \<Rightarrow> int list \<Rightarrow> nat \<Rightarrow> scan_state \<Rightarrow> py_error + scan_state" where
  "scan_step tms codes i st =
     (case py_index codes (int i) of
        Inl e \<Rightarrow> Inl e
      | Inr code \<Rightarrow>
          if Some code \<noteq> current_code st then
            (case save_range tms (int i - 1) st of
               Inl e \<Rightarrow> Inl e
             | Inr st1 \<Rightarrow>
                 (case (if code \<noteq> 16
                        then (case py_index tms (int i) of
                                Inl e \<Rightarrow> Inl e
                              | Inr t \<Rightarrow> Inr (st1\<lparr>start_time := Some t\<rparr>))
                        else Inr st1) of
                    Inl e \<Rightarrow> Inl e
                  | Inr st2 \<Rightarrow> Inr (st2\<lparr>current_code := Some code\<rparr>)))
          else Inr st)"

fun scan_loop :: "tmval list \<Rightarrow> int list \<Rightarrow> nat list \<Rightarrow> scan_state \<Rightarrow> py_error + scan_state" where
  "scan_loop tms codes [] st = Inr st"
| "scan_loop tms codes (i # is) st =
     (case scan_step tms codes i st of
        Inl e \<Rightarrow> Inl e
      | Inr st' \<Rightarrow> scan_loop tms codes is st')"

text \<open>The catalogue of status codes, \<open>error_codes\<close> in both programs; the function
  receives it and does not read it.\<close>

definition error_codes :: "(int \<times> string) list" where
  "error_codes =
     [(1, ''Generator overcurrent''),
      (2, ''Three-phase voltage imbalance''),
      (3, ''DC voltage output to the inverter is too high''),
      (4, ''DC current output to the inverter is too high''),
      (5, ''Overcurrent during motor operation''),
      (6, ''Motor circuit anomaly''),
      (7, ''Disk brake anomaly''),
      (8, ''Generator stator overheating''),
      (9, ''Dynamic unbalance in the wind turbine''),
      (10, ''Wind controller overheating''),
      (11, ''Warning from the internal ECU module of the wind controller''),
      (12, ''Brake command from the internal ECU module of the wind controller''),
      (13, ''Generator speed too high''),
      (25, ''Timer switch off''),
      (26, ''Oil system anomaly''),
      (27, ''Internal communication anomaly''),
      (28, ''Pneumatic brake failure''),
      (29, ''High wind speed''),
      (30, ''Generator over-speed (possible inverter issue)''),
      (33, ''Exceeded pushing limit within time''),
      (34, ''Disk brake needs replacement''),
      (39, ''Memory reset or battery failure''),
      (40, ''Add gearbox lubrication oil''),
      (41, ''No gearbox oil left''),
      (44, ''Generator mechanical fault''),
      (45, ''Brake caliper line pressure increase''),
      (47, ''Oil pressure motor overload protection''),
      (0, ''System in standby''),
      (14, ''Wind speed reaching turbine start-up speed''),
      (15, ''Waiting for turbine speed to reach boost circuit start-up speed''),
      (16, ''System generating power normally''),
      (17, ''No-load short brake''),
      (18, ''No-load long brake''),
      (19, ''No-load brake''),
      (20, ''No-load brake with generator output three-phase short circuit''),
      (21, ''Loaded short brake''),
      (22, ''Loaded long brake''),
      (23, ''Loaded brake''),
      (24, ''Loaded brake with generator output three-phase short circuit''),
      (31, ''Waiting for manual reset''),
      (32, ''Automatic reset''),
      (42, ''Manual stop, local forced stop''),
      (43, ''Remote stop''),
      (46, ''Cooling fan activated'')]"

definition find_error_time_ranges ::
  "frame \<Rightarrow> (int \<times> string) list \<Rightarrow> py_error + (int \<times> time_range list) list" where
  "find_error_time_ranges df catalogue =
     (let tms = TM df
      in case CODE_1 df of
           None \<Rightarrow> Inl KeyError
         | Some codes \<Rightarrow>
             (case scan_loop tms codes [0..<nrows df]
                     \<lparr>error_ranges = [], current_code = None, start_time = None\<rparr> of
                Inl e \<Rightarrow> Inl e
              | Inr st \<Rightarrow>
                  (case save_range tms (- 1) st of
                     Inl e \<Rightarrow> Inl e
                   | Inr st' \<Rightarrow> Inr (error_ranges st'))))"

section \<open>Summary: \<^verbatim>\<open>error_analysis\<close>\<close>

text \<open>
  \<^verbatim>\<open>error_analysis\<close> of \<^verbatim>\<open>wind_analysis.py\<close> returns a text. The model returns what the
  text is made of: the average efficiency and, for each status code other than 16 in
  ascending order, its description and its ranges; or the message of a frame with no
  status column; or the exception the text reports. \<^verbatim>\<open>strftime\<close> is a method of times
  and datetimes only.
\<close>

datatype analysis =
  No_Error_Code_Data
| Analysis fl "(int \<times> string \<times> (tmval \<times> tmval) list) list"
| Error_In_Analysis py_error

fun has_strftime :: "tmval option \<Rightarrow> py_error + tmval" where
  "has_strftime None = Inl AttributeError"
| "has_strftime (Some (TmStr s)) = Inl AttributeError"
| "has_strftime (Some t) = Inr t"

definition format_range :: "time_range \<Rightarrow> py_error + (tmval \<times> tmval)" where
  "format_range rg =
     (case has_strftime (fst rg) of
        Inl e \<Rightarrow> Inl e
      | Inr s \<Rightarrow> (case has_strftime (Some (snd rg)) of Inl e \<Rightarrow> Inl e | Inr t \<Rightarrow> Inr (s, t)))"

definition code_name :: "(int \<times> string) list \<Rightarrow> int \<Rightarrow> string" where
  "code_name catalogue code = (case map_of catalogue code of None \<Rightarrow> ''Unknown'' | Some s \<Rightarrow> s)"

definition timeline ::
  "(int \<times> string) list \<Rightarrow> (int \<times> time_range list) list
     \<Rightarrow> py_error + (int \<times> string \<times> (tmval \<times> tmval) list) list" where
  "timeline catalogue ranges =
     map_err
       (\<lambda>code. case map_of ranges code of
                 None \<Rightarrow> Inl KeyError
               | Some rs \<Rightarrow>
                   (case map_err format_range rs of
                      Inl e \<Rightarrow> Inl e
                    | Inr fs \<Rightarrow> Inr (code, code_name catalogue code, fs)))
       (filter (\<lambda>code. code \<noteq> 16) (sort (map fst ranges)))"

definition avg_efficiency :: "fl list \<Rightarrow> real list \<Rightarrow> fl" where
  "avg_efficiency eff ac =
     (let valid_efficiency = sel (map2 (\<lambda>e a. fl_lt e (Fin 100) \<and> a > 0) eff ac) eff
      in if length valid_efficiency > 0 then series_mean valid_efficiency else Fin 0)"

definition wa_error_analysis :: "ref \<Rightarrow> store \<Rightarrow> analysis \<times> store" where
  "wa_error_analysis r h =
     (let df = get_frame h r
      in (if CODE_1 df = None then No_Error_Code_Data
          else
            (case find_error_time_ranges df error_codes of
               Inl e \<Rightarrow> Error_In_Analysis e
             | Inr ranges \<Rightarrow>
                 (case (Efficiency df, Power_AC df) of
                    (Some eff, Some ac) \<Rightarrow>
                      (case timeline error_codes ranges of
                         Inl e \<Rightarrow> Error_In_Analysis e
                       | Inr entries \<Rightarrow> Analysis (avg_efficiency eff ac) entries)
                  | _ \<Rightarrow> Error_In_Analysis KeyError)),
          h))"

text \<open>\<^verbatim>\<open>error_analysis\<close> of \<^verbatim>\<open>power_power_factor.py\<close> assigns the column of descriptions
  on the frame the caller passed and returns the distinct pairs of code and description,
  each at its first occurrence.\<close>

definition drop_duplicates :: "'a list \<Rightarrow> 'a list" where
  "drop_duplicates xs = rev (remdups (rev xs))"

definition pf_error_analysis ::
  "ref \<Rightarrow> store \<Rightarrow> (py_error + (int \<times> string option) list) \<times> store" where
  "pf_error_analysis r h =
     (let df = get_frame h r
      in case CODE_1 df of
           None \<Rightarrow> (Inl KeyError, h)
         | Some codes \<Rightarrow>
             let names = map (map_of error_codes) codes;
                 h1 = set_frame r (df\<lparr>Error_Name := Some names\<rparr>) h
             in (Inr (drop_duplicates (zip codes names)), h1))"

section \<open>Power factor: \<^verbatim>\<open>calculate_power_factors\<close>\<close>

text \<open>
  Both assignments are on the frame of the selected rows, a new frame. On those rows
  \<open>Power_AC\<close> is positive, so the quotient is a finite number.
\<close>

definition pf_calculate_power_factors ::
  "ref \<Rightarrow> store \<Rightarrow> (py_error + (real \<times> real list) list) \<times> store" where
  "pf_calculate_power_factors r h =
     (let df = get_frame h r
      in case (Power_DC df, Power_AC df) of
           (Some dc, Some ac) \<Rightarrow>
             let keep = map2 (\<lambda>w (d, a). w \<ge> 3 \<and> d > 0 \<and> a > 0) (WSD df) (zip dc ac);
                 (r1, h1) = new_frame (frame_filter keep df) h;
                 df1 = get_frame h1 r1;
                 ivs = map (\<lambda>w. real_of_int (floor w)) (WSD df1);
                 h2 = set_frame r1 (df1\<lparr>WSD_interval := Some ivs\<rparr>) h1;
                 df2 = get_frame h2 r1;
                 pf = col_div (sel keep dc) (sel keep ac);
                 h3 = set_frame r1 (df2\<lparr>PWo_PWi := Some pf\<rparr>) h2;
                 df3 = get_frame h3 r1;
                 (r2, h4) = new_frame (frame_filter (map (\<lambda>q. q < 1) pf) df3) h3;
                 df4 = get_frame h4 r2
             in (case (WSD_interval df4, PWo_PWi df4) of
                   (Some ks, Some qs) \<Rightarrow> Inr (groupby_mean ks [qs])
                 | _ \<Rightarrow> Inl KeyError,
                 h4)
         | _ \<Rightarrow> (Inl KeyError, h))"

section \<open>Tables\<close>

text \<open>The frame of a table as it is read: the columns of the file and no derived
  column. \<open>hms h m s\<close> is the time of day \<^verbatim>\<open>time(h, m, s)\<close>.\<close>

definition table ::
  "real list \<Rightarrow> real list \<Rightarrow> real list \<Rightarrow> real list \<Rightarrow> real list \<Rightarrow> real list \<Rightarrow> real list
     \<Rightarrow> real list \<Rightarrow> real list \<Rightarrow> tmval list \<Rightarrow> int list option \<Rightarrow> frame" where
  "table vdc idc euv evw ewu iu iv iw wsd tm code =
     \<lparr> Vdc = vdc, Idc = idc, Euv = euv, Evw = evw, Ewu = ewu, Iu = iu, Iv = iv, Iw = iw,
       WSD = wsd, TM = tm, CODE_1 = code, Power_DC = None, Power_AC = None,
       Efficiency = None, Cp = None, WSD_rounded = None, WSD_interval = None,
       PWo_PWi = None, minute_col = None, Error_Name = None \<rparr>"

definition hms :: "nat \<Rightarrow> nat \<Rightarrow> nat \<Rightarrow> time" where
  "hms h m s = \<lparr> tm_hour = h, tm_min = m, tm_sec = s, tm_usec = 0 \<rparr>"

text \<open>A state of the scan in which no range has been saved and no run is open.\<close>

definition quiet :: "scan_state \<Rightarrow> bool" where
  "quiet st = (error_ranges st = [] \<and> (current_code st = None \<or> current_code st = Some 16))"


text \<open>A conversion of cells for the examples: it knows two strings, takes the time of a
  datetime and refuses everything else.\<close>

fun sample_strptime :: "tmval \<Rightarrow> py_error + time" where
  "sample_strptime (TmStr s) =
     (if s = ''10:00:29'' then Inr (hms 10 0 29)
      else if s = ''10:00:31'' then Inr (hms 10 0 31)
      else Inl ValueError)"
| "sample_strptime (TmTime t) = Inl TypeError"
| "sample_strptime (TmDatetime d) = Inr (dt_time d)"

text \<open>The efficiencies the summary averages, in the words of the specification
  (section 4.5): those of the samples with \<open>efficiency < 100\<close> and \<open>power_ac > 0\<close>.\<close>

definition valid_efficiencies :: "fl list \<Rightarrow> real list \<Rightarrow> fl list" where
  "valid_efficiencies eff ac =
     map fst (filter (\<lambda>(e, a). fl_lt e (Fin 100) \<and> a > 0) (zip eff ac))"


text \<open>The samples of the power-factor mode, in the words of the specification
  (section 4.2): the rows \<open>(wind_speed, power_dc, power_ac)\<close> with \<open>wind_speed \<ge> 3\<close>,
  \<open>power_dc > 0\<close>, \<open>power_ac > 0\<close> and a ratio below 1.\<close>

definition power_factor_rows ::
  "real list \<Rightarrow> real list \<Rightarrow> real list \<Rightarrow> (real \<times> real \<times> real) list" where
  "power_factor_rows ws dc ac =
     filter (\<lambda>(w, d, a). w \<ge> 3 \<and> d > 0 \<and> a > 0 \<and> d / a < 1) (zip ws (zip dc ac))"


text \<open>A frame of four samples, three of them below 3 m/s, with the columns the aggregations read.\<close>

definition sample_frame :: frame where
  "sample_frame =
     (table [400, 400, 400, 400] [0.5, 1, 2.5, 5] [200, 210, 220, 230] [200, 210, 220, 230]
        [200, 210, 220, 230] [0, 1, 2, 4] [0, 1, 2, 4] [0, 1, 2, 4] [1, 1.03125, 2.5, 3.5]
        [TmTime (hms 10 0 29), TmTime (hms 10 0 31), TmTime (hms 10 1 0), TmTime (hms 10 1 10)]
        (Some [16, 16, 5, 16]))
     \<lparr> Power_DC := Some [0.25, 0.5, 1, 2], Power_AC := Some [0.125, 0.375, 0.75, 1.5],
       Cp := Some [0.125, 0.375, 0.25, 0.5] \<rparr>"


text \<open>A table of two samples whose currents on the AC side are zero, so that \<open>Power_AC\<close>
  is zero in both rows; and a frame of four samples with its columns \<open>Power_AC\<close> and
  \<open>Efficiency\<close>, of which the first two rows have an efficiency below 100 and a positive
  \<open>Power_AC\<close>.\<close>

definition zero_power_table :: frame where
  "zero_power_table =
     table [400, 410] [5, 6] [200, 210] [200, 210] [200, 210] [0, 0] [0, 0] [0, 0] [4, 5]
       [TmTime (hms 10 0 29), TmTime (hms 10 0 31)] (Some [16, 5])"

definition efficiency_frame :: frame where
  "efficiency_frame =
     sample_frame \<lparr> Power_AC := Some [1, 2, 0, - 1],
                    Efficiency := Some [Fin 50, Fin 70, PInf, Fin 25] \<rparr>"


text \<open>A frame of three samples within one minute of the clock, at 10:00:29, 10:00:30.4
  and 10:00:30, with the columns the aggregation by minute reads; and a \<open>to_datetime\<close>
  that refuses every column, for frames with no string to convert.\<close>

definition time_frame :: frame where
  "time_frame =
     (table [400, 400, 400] [2.5, 5, 7.5] [200, 210, 220] [200, 210, 220] [200, 210, 220]
        [1, 2, 4] [1, 2, 4] [1, 2, 4] [4, 5, 6]
        [TmTime (hms 10 0 29),
         TmTime \<lparr> tm_hour = 10, tm_min = 0, tm_sec = 30, tm_usec = 400000 \<rparr>,
         TmTime (hms 10 0 30)]
        (Some [16, 16, 16]))
     \<lparr> Power_DC := Some [1, 2, 3], Power_AC := Some [2, 3, 4], Cp := Some [0.1, 0.2, 0.3] \<rparr>"

definition failing_to_datetime :: "tmval list \<Rightarrow> py_error + instant list" where
  "failing_to_datetime tms = Inl ValueError"


section \<open>The pipeline: \<^verbatim>\<open>main\<close> of \<^verbatim>\<open>wind_analysis.py\<close>\<close>

text \<open>
  \<^verbatim>\<open>main\<close> reads the table, aggregates by wind speed and by minute on the frame it
  read, and analyses the status codes; an exception at any step ends the run with its
  message. The model returns what is handed to the display: the frame, the two tables of
  groups and the analysis. \<open>today\<close>, \<open>to_datetime\<close> and \<open>strptime\<close> are as in the functions
  called.
\<close>

definition wa_main ::
  "int \<Rightarrow> (tmval list \<Rightarrow> py_error + instant list) \<Rightarrow> (tmval \<Rightarrow> py_error + time) \<Rightarrow> frame
     \<Rightarrow> real \<Rightarrow> real \<Rightarrow> real
     \<Rightarrow> py_error + (frame \<times> (real \<times> real list) list \<times> (instant \<times> real list) list \<times> analysis)" where
  "wa_main today to_datetime strptime tbl air_density rotor_diameter rotor_height =
     (case wa_read_and_process_data strptime tbl air_density rotor_diameter rotor_height of
        Inl e \<Rightarrow> Inl e
      | Inr df0 \<Rightarrow>
          let (df, h) = new_frame df0 [];
              (wsg, h1) = wa_process_wind_speed_data df h
          in case wsg of
               Inl e \<Rightarrow> Inl e
             | Inr wind_speed_groups \<Rightarrow>
                 let (tg, h2) = wa_process_time_data today to_datetime df h1
                 in case tg of
                      Inl e \<Rightarrow> Inl e
                    | Inr time_groups \<Rightarrow>
                        let (error_message, h3) = wa_error_analysis df h2
                        in Inr (get_frame h3 df, wind_speed_groups, time_groups,
                                error_message))"

text \<open>The groups of a table by minute, each key moved by a whole number of days.\<close>

definition shift_days :: "int \<Rightarrow> (instant \<times> real list) list \<Rightarrow> (instant \<times> real list) list" where
  "shift_days c groups = map (\<lambda>(k, ms). (k + c * usec_per_day, ms)) groups"


text \<open>A table of two samples, at 10:00:29 and 10:00:31.\<close>

definition sample_table :: frame where
  "sample_table =
     table [400, 410] [5, 6] [200, 0] [210, 0] [220, 0] [3, 1] [3, 1] [3, 1] [4, 5]
       [TmTime (hms 10 0 29), TmTime (hms 10 0 31)] (Some [16, 5])"


text \<open>
  The status intervals in the words of the specification (section 3): a maximal run of
  consecutive samples with one status code, given by the code and the times of its first
  and last sample. \<open>run_ranges\<close> gathers the runs of the codes other than 16 into the
  mapping, a code entering at its first run. \<open>scanned\<close> relates the variables of the
  loop to the runs of the rows it has read.
\<close>

fun runs :: "('t \<times> 'c) list \<Rightarrow> ('c \<times> 't \<times> 't) list" where
  "runs [] = []"
| "runs ((t, c) # rows) =
     (case runs rows of
        [] \<Rightarrow> [(c, t, t)]
      | (c', s, e) # rs \<Rightarrow> if c' = c then (c, t, e) # rs else (c, t, t) # (c', s, e) # rs)"

definition run_ranges :: "(int \<times> tmval \<times> tmval) list \<Rightarrow> (int \<times> time_range list) list" where
  "run_ranges rs = foldl (\<lambda>d (c, s, e). if c \<noteq> 16 then dd_append c (Some s, e) d else d) [] rs"

definition scanned :: "tmval list \<Rightarrow> int list \<Rightarrow> nat \<Rightarrow> scan_state \<Rightarrow> bool" where
  "scanned tms codes i st =
     (if i = 0 then st = \<lparr>error_ranges = [], current_code = None, start_time = None\<rparr>
      else \<exists>rs c s. runs (take i (zip tms codes)) = rs @ [(c, s, tms ! (i - 1))]
             \<and> current_code st = Some c \<and> (c \<noteq> 16 \<longrightarrow> start_time st = Some s)
             \<and> error_ranges st = run_ranges rs)"


section \<open>Theorems\<close>

subsection \<open>Rounding to float64\<close>


lemma rint_int: "rint (of_int n) = of_int n"
  by (simp add: rint_def)

lemma rint_ge_floor: "of_int (floor x) \<le> rint x"
  by (simp add: rint_def Let_def)

lemma rint_mono_int: "of_int n \<le> y \<Longrightarrow> of_int n \<le> rint y"
proof -
  assume "of_int n \<le> y"
  then have "n \<le> floor y" by (simp add: le_floor_iff)
  then have "(of_int n :: real) \<le> of_int (floor y)" by simp
  with rint_ge_floor [of y] show ?thesis by linarith
qed







lemma round64_nonneg: "0 \<le> x \<Longrightarrow> 0 \<le> round64 x"
proof -
  assume x: "0 \<le> x"
  have "0 \<le> x / 2 powr of_int (fexp x)" using x by simp
  then have "of_int 0 \<le> rint (x / 2 powr of_int (fexp x))"
    by (intro rint_mono_int) simp
  then show ?thesis by (simp add: round64_def)
qed

lemma rint_minus: "rint (- x) = - rint x"
proof (cases "x = of_int \<lfloor>x\<rfloor>")
  case True
  then obtain n where "x = of_int n" by metis
  then show ?thesis by (simp add: rint_def flip: of_int_minus)
next
  case False
  then have f: "\<lfloor>- x\<rfloor> = - \<lfloor>x\<rfloor> - 1"
    by (simp add: floor_minus ceiling_altdef)
  define d where "d = x - of_int \<lfloor>x\<rfloor>"
  have d: "0 < d" "d < 1" unfolding d_def using False by linarith+
  have x: "x = of_int \<lfloor>x\<rfloor> + d" by (simp add: d_def)
  have dm: "- x - of_int \<lfloor>- x\<rfloor> = 1 - d" unfolding f d_def by simp
  show ?thesis
    unfolding rint_def Let_def dm unfolding f d_def [symmetric]
    using d by (auto simp: algebra_simps)
qed

lemma round64_minus: "round64 (- x) = - round64 x"
  by (simp add: round64_def fexp_def rint_minus)




lemma round64_exact:
  assumes x: "x = of_int m * 2 powr of_int e" and m: "\<bar>m\<bar> < 2 ^ 53" and e: "- 1074 \<le> e"
  shows "round64 x = x"
proof (cases "x = 0")
  case True
  then show ?thesis by (simp add: round64_def)
next
  case x0: False
  have "\<bar>x\<bar> = of_int \<bar>m\<bar> * 2 powr of_int e" by (simp add: x abs_mult)
  also have "\<dots> < of_int (2 ^ 53) * 2 powr of_int e"
    using m by (intro mult_strict_right_mono) (simp_all only: of_int_less_iff powr_gt_zero)
  also have "\<dots> = 2 powr 53 * 2 powr of_int e" by (simp add: powr_numeral)
  also have "\<dots> = 2 powr (53 + of_int e)" by (simp only: powr_add)
  finally have lt: "\<bar>x\<bar> < 2 powr (53 + of_int e)" .
  have "log 2 \<bar>x\<bar> < 53 + of_int e"
    using x0 lt by (subst log_less_iff) simp_all
  then have "log 2 \<bar>x\<bar> < of_int (53 + e)" by simp
  then have "\<lfloor>log 2 \<bar>x\<bar>\<rfloor> < 53 + e" by (simp only: floor_less_iff)
  then have f: "fexp x \<le> e" using e unfolding fexp_def by linarith
  define f where "f = fexp x"
  define d where "d = nat (e - f)"
  have d: "e = f + int d" using f by (simp add: d_def f_def)
  have "(2::real) powr of_int e = 2 powr (of_int f + of_int (int d))"
    by (subst d) simp
  also have "\<dots> = 2 powr of_int f * 2 powr of_int (int d)" by (simp only: powr_add)
  also have "(2::real) powr of_int (int d) = 2 ^ d" by (simp add: powr_realpow)
  finally have p: "(2::real) powr of_int e = 2 powr of_int f * 2 ^ d" .
  have "x / 2 powr of_int f = of_int m * 2 ^ d"
    by (simp add: x p)
  also have "\<dots> = of_int (m * 2 ^ d)" by simp
  finally have q: "x / 2 powr of_int f = of_int (m * 2 ^ d)" .
  have "round64 x = rint (x / 2 powr of_int f) * 2 powr of_int f"
    using x0 by (simp add: round64_def f_def)
  also have "\<dots> = of_int (m * 2 ^ d) * 2 powr of_int f"
    by (simp only: q rint_int)
  also have "\<dots> = x" by (simp add: x p)
  finally show ?thesis .
qed

lemma round64_int: "\<bar>m\<bar> < 2 ^ 53 \<Longrightarrow> round64 (of_int m) = of_int m"
  using round64_exact [of "of_int m" m 0] by simp





lemma round64_one: "round64 1 = 1"
  using round64_int [of 1] by simp





subsection \<open>The power coefficient\<close>




















subsection \<open>The status timeline\<close>

lemma dd_append_keys:
  "map fst (dd_append k v d) = (if k \<in> set (map fst d) then map fst d else map fst d @ [k])"
  by (induction d) (force simp: image_iff)+

lemma save_range_keys:
  assumes "save_range tms j st = Inr st'" and "16 \<notin> set (map fst (error_ranges st))"
  shows "16 \<notin> set (map fst (error_ranges st'))"
  using assms
  by (auto simp: save_range_def dd_append_keys simp del: set_map split: option.splits if_splits sum.splits)

lemma save_range_other:
  assumes "save_range tms j st = Inr st'"
  shows "current_code st' = current_code st \<and> start_time st' = start_time st"
  using assms by (auto simp: save_range_def split: option.splits if_splits sum.splits)

lemma scan_step_keys:
  assumes "scan_step tms codes i st = Inr st'" and "16 \<notin> set (map fst (error_ranges st))"
  shows "16 \<notin> set (map fst (error_ranges st'))"
proof (cases "save_range tms (int i - 1) st")
  case (Inl e)
  with assms show ?thesis
    by (auto simp: scan_step_def split: sum.splits if_splits)
next
  case (Inr st1)
  have "16 \<notin> set (map fst (error_ranges st1))"
    using Inr assms(2) by (rule save_range_keys)
  with assms Inr show ?thesis
    by (auto simp: scan_step_def split: sum.splits if_splits)
qed

lemma scan_loop_keys:
  "scan_loop tms codes is st = Inr st' \<Longrightarrow> 16 \<notin> set (map fst (error_ranges st))
     \<Longrightarrow> 16 \<notin> set (map fst (error_ranges st'))"
proof (induction "is" arbitrary: st)
  case Nil
  then show ?case by simp
next
  case (Cons i "is")
  from Cons.prems(1) obtain st1 where
    s1: "scan_step tms codes i st = Inr st1" and s2: "scan_loop tms codes is st1 = Inr st'"
    by (auto split: sum.splits)
  from s1 Cons.prems(2) have "16 \<notin> set (map fst (error_ranges st1))"
    by (rule scan_step_keys)
  with s2 show ?case by (rule Cons.IH)
qed

lemma find_error_time_ranges_no_16:
  assumes "find_error_time_ranges df cat = Inr rs"
  shows "16 \<notin> set (map fst rs)"
proof -
  from assms obtain codes st st' where
    loop: "scan_loop (TM df) codes [0..<nrows df]
             \<lparr>error_ranges = [], current_code = None, start_time = None\<rparr> = Inr st"
    and fin: "save_range (TM df) (- 1) st = Inr st'" and rs: "rs = error_ranges st'"
    by (auto simp: find_error_time_ranges_def Let_def split: option.splits sum.splits)
  from loop have "16 \<notin> set (map fst (error_ranges st))"
    by (rule scan_loop_keys) simp
  with fin have "16 \<notin> set (map fst (error_ranges st'))"
    by (rule save_range_keys)
  with rs show ?thesis by simp
qed

lemma py_index_ok: "0 \<le> j \<Longrightarrow> j < int (length xs) \<Longrightarrow> \<exists>x. py_index xs j = Inr x"
  by (simp add: py_index_def Let_def)

lemma py_index_neg_ok: "xs \<noteq> [] \<Longrightarrow> j < 0 \<Longrightarrow> - int (length xs) \<le> j \<Longrightarrow> \<exists>x. py_index xs j = Inr x"
  by (simp add: py_index_def Let_def)

lemma py_index_pred_ok:
  assumes "i < length xs"
  shows "\<exists>x. py_index xs (int i - 1) = Inr x"
proof (cases i)
  case 0
  with assms show ?thesis by (simp add: py_index_def Let_def)
next
  case (Suc k)
  with assms show ?thesis by (simp add: py_index_def Let_def)
qed

lemma save_range_total:
  assumes "\<exists>x. py_index tms j = Inr x"
  shows "\<exists>st'. save_range tms j st = Inr st'"
  using assms by (auto simp: save_range_def split: option.splits)

lemma scan_step_total:
  assumes "i < length codes" and "length tms = length codes"
  shows "\<exists>st'. scan_step tms codes i st = Inr st'"
proof -
  from assms obtain code where c: "py_index codes (int i) = Inr code"
    using py_index_ok [of "int i" codes] by auto
  from assms obtain t where t: "py_index tms (int i) = Inr t"
    using py_index_ok [of "int i" tms] by auto
  from assms have "\<exists>x. py_index tms (int i - 1) = Inr x"
    using py_index_pred_ok [of i tms] by simp
  then obtain st1 where s: "save_range tms (int i - 1) st = Inr st1"
    using save_range_total by blast
  show ?thesis
    by (simp add: scan_step_def c t s)
qed

lemma scan_loop_total:
  assumes "\<forall>i \<in> set is. i < length codes" and "length tms = length codes"
  shows "\<exists>st'. scan_loop tms codes is st = Inr st'"
  using assms
proof (induction "is" arbitrary: st)
  case Nil
  then show ?case by simp
next
  case (Cons i "is")
  then obtain st1 where "scan_step tms codes i st = Inr st1"
    using scan_step_total [of i codes tms st] by auto
  with Cons show ?case by simp
qed

lemma scan_loop_current_code:
  "scan_loop tms codes is st = Inr st' \<Longrightarrow> is = [] \<Longrightarrow> st' = st"
  by simp

lemma find_error_time_ranges_total:
  assumes ok: "frame_ok df" and c: "CODE_1 df = Some codes"
  shows "\<exists>rs. find_error_time_ranges df cat = Inr rs"
proof -
  from ok c have len: "length codes = nrows df" "length (TM df) = nrows df"
    by (simp_all add: frame_ok_def Let_def col_ok_def)
  then obtain st where loop: "scan_loop (TM df) codes [0..<nrows df]
             \<lparr>error_ranges = [], current_code = None, start_time = None\<rparr> = Inr st"
    using scan_loop_total [of "[0..<nrows df]" codes "TM df"] by auto
  have "\<exists>st'. save_range (TM df) (- 1) st = Inr st'"
  proof (cases "nrows df = 0")
    case True
    with loop have "current_code st = None" by auto
    then show ?thesis by (simp add: save_range_def)
  next
    case False
    with len have "\<exists>x. py_index (TM df) (- 1) = Inr x"
      by (intro py_index_neg_ok) auto
    then show ?thesis by (rule save_range_total)
  qed
  with loop c show ?thesis
    by (auto simp: find_error_time_ranges_def Let_def)
qed

lemma find_error_time_ranges_example:
  assumes ok: "frame_ok df" and t: "TM df = [t0, t1, t2, t3, t4, t5, t6, t7, t8]"
    and c: "CODE_1 df = Some [16, 16, 5, 5, 16, 3, 3, 3, 16]"
  shows "find_error_time_ranges df cat = Inr [(5, [(Some t2, t3)]), (3, [(Some t5, t7)])]"
proof -
  from ok t have n: "nrows df = 9"
    by (simp add: frame_ok_def Let_def)
  have u: "[0..<9] = [0, 1, 2, 3, 4, 5, 6, 7, 8::nat]"
    by (simp add: upt_rec)
  show ?thesis
    by (simp add: find_error_time_ranges_def Let_def t c n u scan_step_def save_range_def
        py_index_def)
qed

lemma save_range_quiet: "quiet st \<Longrightarrow> save_range tms j st = Inr st"
  by (auto simp: quiet_def save_range_def)

lemma scan_step_quiet:
  assumes "quiet st" and "i < length codes" and "\<forall>c \<in> set codes. c = 16"
    and "scan_step tms codes i st = Inr st'"
  shows "quiet st'"
proof -
  from assms(2,3) have "py_index codes (int i) = Inr 16"
    by (simp add: py_index_def Let_def)
  with assms(1,4) show ?thesis
    by (auto simp: scan_step_def save_range_quiet quiet_def split: if_splits)
qed

lemma scan_loop_quiet:
  "quiet st \<Longrightarrow> \<forall>i \<in> set is. i < length codes \<Longrightarrow> \<forall>c \<in> set codes. c = 16
     \<Longrightarrow> scan_loop tms codes is st = Inr st' \<Longrightarrow> quiet st'"
proof (induction "is" arbitrary: st)
  case Nil
  then show ?case by simp
next
  case (Cons i "is")
  from Cons.prems(4) obtain st1 where
    s1: "scan_step tms codes i st = Inr st1" and s2: "scan_loop tms codes is st1 = Inr st'"
    by (auto split: sum.splits)
  from Cons.prems(1,2,3) s1 have "quiet st1"
    by (auto intro: scan_step_quiet)
  with Cons.prems(2,3) s2 show ?case
    by (auto intro: Cons.IH)
qed

lemma find_error_time_ranges_all_16:
  assumes ok: "frame_ok df" and c: "CODE_1 df = Some codes" and a: "\<forall>c \<in> set codes. c = 16"
  shows "find_error_time_ranges df cat = Inr []"
proof -
  from ok c have len: "length codes = nrows df"
    by (simp add: frame_ok_def Let_def col_ok_def)
  from ok c obtain rs where rs: "find_error_time_ranges df cat = Inr rs"
    using find_error_time_ranges_total by blast
  then obtain st st' where
    loop: "scan_loop (TM df) codes [0..<nrows df]
             \<lparr>error_ranges = [], current_code = None, start_time = None\<rparr> = Inr st"
    and fin: "save_range (TM df) (- 1) st = Inr st'" and e: "rs = error_ranges st'"
    using c by (auto simp: find_error_time_ranges_def Let_def split: sum.splits)
  have init: "quiet \<lparr>error_ranges = [], current_code = None, start_time = None\<rparr>"
    by (simp add: quiet_def)
  have q: "quiet st"
    by (rule scan_loop_quiet [OF init _ a loop]) (simp add: len)
  with fin have "st' = st" by (simp add: save_range_quiet)
  with q e have "rs = []" by (simp add: quiet_def)
  with rs show ?thesis by simp
qed


subsection \<open>The timeline and the runs of the status codes\<close>

lemma runs_empty: "runs xs = [] \<longleftrightarrow> xs = []"
  by (induction xs rule: runs.induct) (auto split: list.splits)

lemma runs_snoc:
  "runs (xs @ [(t, c)]) =
     (if xs = [] then [(c, t, t)]
      else if fst (last (runs xs)) = c
        then butlast (runs xs) @ [(c, fst (snd (last (runs xs))), t)]
      else runs xs @ [(c, t, t)])"
proof (induction xs rule: runs.induct)
  case 1
  then show ?case by simp
next
  case (2 t' c' rows)
  show ?case
  proof (cases "rows = []")
    case True
    then show ?thesis by simp
  next
    case False
    then have ne: "runs rows \<noteq> []" by (simp add: runs_empty)
    then obtain c0 s0 e0 rs where r: "runs rows = (c0, s0, e0) # rs"
      by (cases "runs rows") auto
    from 2 False have ih: "runs (rows @ [(t, c)]) =
      (if fst (last (runs rows)) = c
        then butlast (runs rows) @ [(c, fst (snd (last (runs rows))), t)]
      else runs rows @ [(c, t, t)])"
      by simp
    show ?thesis
      using False r ih by (cases rs) (auto split: list.splits)
  qed
qed


lemma run_ranges_snoc:
  "run_ranges (rs @ [(c, s, e)]) = (if c \<noteq> 16 then dd_append c (Some s, e) (run_ranges rs) else run_ranges rs)"
  by (simp add: run_ranges_def)

lemma scan_loop_snoc:
  "scan_loop tms codes (is @ [i]) st =
     (case scan_loop tms codes is st of Inl e \<Rightarrow> Inl e | Inr st' \<Rightarrow> scan_step tms codes i st')"
  by (induction "is" arbitrary: st) (auto split: sum.splits)

lemma py_index_nth: "i < length xs \<Longrightarrow> py_index xs (int i) = Inr (xs ! i)"
  by (simp add: py_index_def Let_def)

lemma py_index_prev: "0 < i \<Longrightarrow> i < length xs \<Longrightarrow> py_index xs (int i - 1) = Inr (xs ! (i - 1))"
  by (simp add: py_index_def Let_def nat_diff_distrib')

lemma py_index_last: "xs \<noteq> [] \<Longrightarrow> py_index xs (- 1) = Inr (xs ! (length xs - 1))"
  by (simp add: py_index_def Let_def nat_diff_distrib')

lemma scan_step_first:
  assumes "0 < length codes" and "length tms = length codes"
  shows "\<exists>st'. scan_step tms codes 0 \<lparr>error_ranges = [], current_code = None, start_time = None\<rparr>
                   = Inr st' \<and> scanned tms codes (Suc 0) st'"
proof -
  from assms obtain t tms' c codes' where l: "tms = t # tms'" "codes = c # codes'"
    by (cases tms; cases codes) auto
  show ?thesis
    unfolding l
    by (simp add: scan_step_def save_range_def py_index_def Let_def scanned_def run_ranges_def)
qed

lemma scan_step_next:
  assumes i: "0 < i" "i < length codes" and len: "length tms = length codes"
    and inv: "scanned tms codes i st"
  shows "\<exists>st'. scan_step tms codes i st = Inr st' \<and> scanned tms codes (Suc i) st'"
proof -
  let ?rows = "zip tms codes"
  from i inv obtain rs c s where
    r: "runs (take i ?rows) = rs @ [(c, s, tms ! (i - 1))]" and cc: "current_code st = Some c"
    and st: "c \<noteq> 16 \<longrightarrow> start_time st = Some s" and er: "error_ranges st = run_ranges rs"
    by (auto simp: scanned_def)
  from i len have tk: "take (Suc i) ?rows = take i ?rows @ [(tms ! i, codes ! i)]"
    by (simp add: take_Suc_conv_app_nth)
  from i len have ne: "take i ?rows \<noteq> []" by auto
  have pc: "py_index codes (int i) = Inr (codes ! i)"
    using i by (simp add: py_index_nth)
  have pt: "py_index tms (int i) = Inr (tms ! i)"
    using i len by (simp add: py_index_nth)
  have pp: "py_index tms (int i - 1) = Inr (tms ! (i - 1))"
    using i len by (simp add: py_index_prev)
  show ?thesis
  proof (cases "codes ! i = c")
    case True
    then have "scan_step tms codes i st = Inr st"
      by (simp add: scan_step_def pc cc)
    moreover have "runs (take (Suc i) ?rows) = rs @ [(c, s, tms ! i)]"
      unfolding tk runs_snoc using ne r True by simp
    ultimately show ?thesis
      using cc st er by (auto simp: scanned_def)
  next
    case False
    have rn: "runs (take (Suc i) ?rows)
                = (rs @ [(c, s, tms ! (i - 1))]) @ [(codes ! i, tms ! i, tms ! i)]"
      unfolding tk runs_snoc using ne r False by simp
    show ?thesis
    proof (cases "c = 16")
      case True
      with False cc er have "scan_step tms codes i st
          = Inr ((if codes ! i \<noteq> 16 then st\<lparr>start_time := Some (tms ! i)\<rparr> else st)
                   \<lparr>current_code := Some (codes ! i)\<rparr>)"
        by (auto simp: scan_step_def pc pt save_range_def)
      moreover from True er have "error_ranges st = run_ranges (rs @ [(c, s, tms ! (i - 1))])"
        by (simp add: run_ranges_snoc)
      ultimately show ?thesis
        unfolding scanned_def using rn by auto
    next
      case c16: False
      with st have ss: "start_time st = Some s" by simp
      let ?st1 = "st\<lparr>error_ranges := dd_append c (Some s, tms ! (i - 1)) (error_ranges st)\<rparr>"
      from False cc c16 ss have "scan_step tms codes i st
          = Inr ((if codes ! i \<noteq> 16 then ?st1\<lparr>start_time := Some (tms ! i)\<rparr> else ?st1)
                   \<lparr>current_code := Some (codes ! i)\<rparr>)"
        by (auto simp: scan_step_def pc pt pp save_range_def)
      moreover from c16 er have "error_ranges ?st1 = run_ranges (rs @ [(c, s, tms ! (i - 1))])"
        by (simp add: run_ranges_snoc)
      ultimately show ?thesis
        unfolding scanned_def using rn by auto
    qed
  qed
qed

lemma scan_loop_scanned:
  assumes "n \<le> length codes" and "length tms = length codes"
  shows "\<exists>st. scan_loop tms codes [0..<n] \<lparr>error_ranges = [], current_code = None, start_time = None\<rparr>
                 = Inr st \<and> scanned tms codes n st"
  using assms(1)
proof (induction n)
  case 0
  then show ?case by (simp add: scanned_def)
next
  case (Suc n)
  then obtain st where st: "scan_loop tms codes [0..<n]
      \<lparr>error_ranges = [], current_code = None, start_time = None\<rparr> = Inr st"
    and inv: "scanned tms codes n st"
    by auto
  have "\<exists>st'. scan_step tms codes n st = Inr st' \<and> scanned tms codes (Suc n) st'"
  proof (cases "n = 0")
    case True
    with inv have "st = \<lparr>error_ranges = [], current_code = None, start_time = None\<rparr>"
      by (simp add: scanned_def)
    moreover from Suc.prems have "0 < length codes" by linarith
    ultimately show ?thesis
      using True scan_step_first [OF _ assms(2)] by simp
  next
    case False
    with Suc.prems assms(2) inv show ?thesis
      by (intro scan_step_next) simp_all
  qed
  with st show ?case
    by (simp add: scan_loop_snoc)
qed

lemma find_error_time_ranges_runs:
  assumes ok: "frame_ok df" and c: "CODE_1 df = Some codes"
  shows "find_error_time_ranges df cat = Inr (run_ranges (runs (zip (TM df) codes)))"
proof -
  from ok c have len: "length codes = nrows df" "length (TM df) = length codes"
    by (simp_all add: frame_ok_def Let_def col_ok_def)
  from scan_loop_scanned [of "nrows df" codes "TM df"] len obtain st where
    loop: "scan_loop (TM df) codes [0..<nrows df]
             \<lparr>error_ranges = [], current_code = None, start_time = None\<rparr> = Inr st"
    and inv: "scanned (TM df) codes (nrows df) st"
    by auto
  show ?thesis
  proof (cases "nrows df = 0")
    case True
    with inv len show ?thesis
      using c loop by (simp add: find_error_time_ranges_def Let_def scanned_def save_range_def
          run_ranges_def)
  next
    case False
    with inv len obtain rs c0 s where
      r: "runs (zip (TM df) codes) = rs @ [(c0, s, TM df ! (nrows df - 1))]"
      and cc: "current_code st = Some c0" and ss: "c0 \<noteq> 16 \<longrightarrow> start_time st = Some s"
      and er: "error_ranges st = run_ranges rs"
      by (auto simp: scanned_def)
    from False len have "TM df \<noteq> []" by auto
    from py_index_last [OF this] len
    have pl: "py_index (TM df) (- 1) = Inr (TM df ! (nrows df - 1))" by simp
    from cc ss er pl have "(case save_range (TM df) (- 1) st of Inl e \<Rightarrow> Inl e
        | Inr st' \<Rightarrow> Inr (error_ranges st')) = Inr (run_ranges (rs @ [(c0, s, TM df ! (nrows df - 1))]))"
      by (auto simp: save_range_def run_ranges_snoc)
    with c loop r show ?thesis
      by (simp add: find_error_time_ranges_def Let_def)
  qed
qed


text \<open>
  Claim C3. On a frame with a status column \<open>find_error_time_ranges\<close> returns, and what
  it returns maps each status code other than 16 to its maximal runs of consecutive
  samples, each as the times of the first and the last sample of the run. On the codes
  \<open>[16,16,5,5,16,3,3,3,16]\<close> with the times \<open>t0..t8\<close> it returns exactly
  \<open>{5: [(t2,t3)], 3: [(t5,t7)]}\<close>; whatever the frame, the code 16 is not a key of what
  it returns; on a frame whose codes are all 16 it returns the empty mapping.
\<close>

theorem find_error_time_ranges_timeline:
  "(frame_ok df \<and> TM df = [t0, t1, t2, t3, t4, t5, t6, t7, t8]
      \<and> CODE_1 df = Some [16, 16, 5, 5, 16, 3, 3, 3, 16]
      \<longrightarrow> find_error_time_ranges df cat = Inr [(5, [(Some t2, t3)]), (3, [(Some t5, t7)])])
   \<and> (find_error_time_ranges df' cat = Inr rs \<longrightarrow> 16 \<notin> set (map fst rs))
   \<and> (frame_ok df' \<and> CODE_1 df' = Some codes
        \<longrightarrow> (\<exists>rs'. find_error_time_ranges df' cat = Inr rs'))
   \<and> (frame_ok df' \<and> CODE_1 df' = Some codes
        \<longrightarrow> find_error_time_ranges df' cat = Inr (run_ranges (runs (zip (TM df') codes))))
   \<and> (frame_ok df' \<and> CODE_1 df' = Some codes \<and> (\<forall>c \<in> set codes. c = 16)
        \<longrightarrow> find_error_time_ranges df' cat = Inr [])"
proof (intro conjI impI; (elim conjE)?)
  assume "frame_ok df" and "TM df = [t0, t1, t2, t3, t4, t5, t6, t7, t8]"
    and "CODE_1 df = Some [16, 16, 5, 5, 16, 3, 3, 3, 16]"
  then show "find_error_time_ranges df cat = Inr [(5, [(Some t2, t3)]), (3, [(Some t5, t7)])]"
    by (rule find_error_time_ranges_example)
next
  assume "find_error_time_ranges df' cat = Inr rs"
  then show "16 \<notin> set (map fst rs)"
    by (rule find_error_time_ranges_no_16)
next
  assume "frame_ok df'" and "CODE_1 df' = Some codes"
  then show "\<exists>rs'. find_error_time_ranges df' cat = Inr rs'"
    by (rule find_error_time_ranges_total)
next
  assume "frame_ok df'" and "CODE_1 df' = Some codes"
  then show "find_error_time_ranges df' cat = Inr (run_ranges (runs (zip (TM df') codes)))"
    by (rule find_error_time_ranges_runs)
next
  assume "frame_ok df'" and "CODE_1 df' = Some codes" and "\<forall>c \<in> set codes. c = 16"
  then show "find_error_time_ranges df' cat = Inr []"
    by (rule find_error_time_ranges_all_16)
qed

theorem find_error_time_ranges_timeline_witness:
  "find_error_time_ranges
     (table (replicate 9 0) (replicate 9 0) (replicate 9 0) (replicate 9 0) (replicate 9 0)
        (replicate 9 0) (replicate 9 0) (replicate 9 0) (replicate 9 0)
        (map (\<lambda>s. TmTime (hms 10 0 s)) [0, 1, 2, 3, 4, 5, 6, 7, 8])
        (Some [16, 16, 5, 5, 16, 3, 3, 3, 16])) error_codes
     = Inr [(5, [(Some (TmTime (hms 10 0 2)), TmTime (hms 10 0 3))]),
            (3, [(Some (TmTime (hms 10 0 5)), TmTime (hms 10 0 7))])]
   \<and> 16 \<notin> set (map fst [(5 :: int, [(Some (TmTime (hms 10 0 2)), TmTime (hms 10 0 3))]),
                         (3, [(Some (TmTime (hms 10 0 5)), TmTime (hms 10 0 7))])])
   \<and> find_error_time_ranges
       (table [0, 0] [0, 0] [0, 0] [0, 0] [0, 0] [0, 0] [0, 0] [0, 0] [4, 5]
          [TmTime (hms 10 0 0), TmTime (hms 10 0 1)] (Some [16, 16])) error_codes
     = Inr []"
proof -
  let ?df = "table (replicate 9 0) (replicate 9 0) (replicate 9 0) (replicate 9 0)
        (replicate 9 0) (replicate 9 0) (replicate 9 0) (replicate 9 0) (replicate 9 0)
        (map (\<lambda>s. TmTime (hms 10 0 s)) [0, 1, 2, 3, 4, 5, 6, 7, 8])
        (Some [16, 16, 5, 5, 16, 3, 3, 3, 16])"
  let ?df' = "table [0, 0] [0, 0] [0, 0] [0, 0] [0, 0] [0, 0] [0, 0] [0, 0] [4, 5]
          [TmTime (hms 10 0 0), TmTime (hms 10 0 1)] (Some [16, 16])"
  note th = find_error_time_ranges_timeline [of ?df "TmTime (hms 10 0 0)"
      "TmTime (hms 10 0 1)" "TmTime (hms 10 0 2)" "TmTime (hms 10 0 3)" "TmTime (hms 10 0 4)"
      "TmTime (hms 10 0 5)" "TmTime (hms 10 0 6)" "TmTime (hms 10 0 7)" "TmTime (hms 10 0 8)"
      error_codes ?df' "[]" "[16, 16]"]
  have h: "frame_ok ?df
      \<and> TM ?df = [TmTime (hms 10 0 0), TmTime (hms 10 0 1), TmTime (hms 10 0 2),
           TmTime (hms 10 0 3), TmTime (hms 10 0 4), TmTime (hms 10 0 5), TmTime (hms 10 0 6),
           TmTime (hms 10 0 7), TmTime (hms 10 0 8)]
      \<and> CODE_1 ?df = Some [16, 16, 5, 5, 16, 3, 3, 3, 16]"
    by (simp add: frame_ok_def table_def nrows_def col_ok_def)
  have h': "frame_ok ?df' \<and> CODE_1 ?df' = Some [16, 16] \<and> (\<forall>c \<in> set [16, 16 :: int]. c = 16)"
    by (simp add: frame_ok_def table_def nrows_def col_ok_def)
  have a: "find_error_time_ranges ?df error_codes
     = Inr [(5, [(Some (TmTime (hms 10 0 2)), TmTime (hms 10 0 3))]),
            (3, [(Some (TmTime (hms 10 0 5)), TmTime (hms 10 0 7))])]"
    by (rule th [THEN conjunct1, THEN mp, OF h])
  have b: "16 \<notin> set (map fst [(5 :: int, [(Some (TmTime (hms 10 0 2)), TmTime (hms 10 0 3))]),
                         (3, [(Some (TmTime (hms 10 0 5)), TmTime (hms 10 0 7))])])"
    by simp
  have c: "find_error_time_ranges ?df' error_codes = Inr []"
    by (rule th [THEN conjunct2, THEN conjunct2, THEN conjunct2, THEN conjunct2, THEN mp,
          OF h'])
  from a b c show ?thesis by (intro conjI)
qed

subsection \<open>The derived columns\<close>

lemma convert_TM_cols:
  assumes "convert_TM strptime df = Inr df'"
  shows "Power_DC df' = Power_DC df \<and> Power_AC df' = Power_AC df
         \<and> Efficiency df' = Efficiency df \<and> Cp df' = Cp df \<and> WSD df' = WSD df
         \<and> CODE_1 df' = CODE_1 df"
  using assms by (auto simp: convert_TM_def split: list.splits if_splits sum.splits)



subsection \<open>The conversion of the time column\<close>

lemma to_time_col_Inr:
  "to_time_col strptime xs = Inr ts \<Longrightarrow>
     length ts = length xs \<and> (\<forall>j < length xs. \<exists>t. strptime (xs ! j) = Inr t \<and> ts ! j = TmTime t)"
proof (induction xs arbitrary: ts)
  case Nil
  then show ?case by simp
next
  case (Cons x xs)
  from Cons.prems obtain t ts' where
    x: "strptime x = Inr t" and r: "to_time_col strptime xs = Inr ts'" and ts: "ts = TmTime t # ts'"
    by (auto split: sum.splits)
  from Cons.IH [OF r] x ts show ?case
    by (auto simp: nth_Cons split: nat.splits)
qed

lemma to_time_col_Inl:
  "to_time_col strptime xs = Inl e \<Longrightarrow> \<exists>j < length xs. strptime (xs ! j) = Inl e"
proof (induction xs)
  case Nil
  then show ?case by simp
next
  case (Cons x xs)
  show ?case
  proof (cases "strptime x")
    case (Inl e')
    with Cons.prems have "strptime ((x # xs) ! 0) = Inl e" by simp
    then show ?thesis by blast
  next
    case (Inr t)
    with Cons.prems have "to_time_col strptime xs = Inl e"
      by (auto split: sum.splits)
    from Cons.IH [OF this] obtain j where "j < length xs" "strptime (xs ! j) = Inl e"
      by blast
    then have "Suc j < length (x # xs) \<and> strptime ((x # xs) ! Suc j) = Inl e" by simp
    then show ?thesis by blast
  qed
qed

lemma wa_read_TM_str:
  assumes "TM tbl = c # cs" and "is_str c"
    and "wa_read_and_process_data strptime tbl rho d h = Inr df"
  shows "length (TM df) = length (TM tbl)
         \<and> (\<forall>j < length (TM tbl). \<exists>t. strptime (TM tbl ! j) = Inr t \<and> TM df ! j = TmTime t)"
proof -
  from assms obtain ts where "to_time_col strptime (TM tbl) = Inr ts" and "TM df = ts"
    by (auto simp: wa_read_and_process_data_def Let_def convert_TM_def split: sum.splits)
  then show ?thesis using to_time_col_Inr by blast
qed

lemma wa_read_TM_str_fail:
  assumes "TM tbl = c # cs" and "is_str c"
    and "wa_read_and_process_data strptime tbl rho d h = Inl e"
  shows "\<exists>j < length (TM tbl). strptime (TM tbl ! j) = Inl e"
proof -
  from assms have "to_time_col strptime (TM tbl) = Inl e"
    by (auto simp: wa_read_and_process_data_def Let_def convert_TM_def split: sum.splits)
  then show ?thesis by (rule to_time_col_Inl)
qed

lemma wa_read_TM_other:
  assumes "TM tbl = c # cs" and "\<not> is_str c"
  shows "\<exists>df. wa_read_and_process_data strptime tbl rho d h = Inr df \<and> TM df = TM tbl"
  using assms by (simp add: wa_read_and_process_data_def Let_def convert_TM_def)

lemma pf_read_TM_str:
  assumes "TM tbl = c # cs" and "is_str c"
    and "pf_read_and_process_data strptime tbl = Inr df"
  shows "length (TM df) = length (TM tbl)
         \<and> (\<forall>j < length (TM tbl). \<exists>t. strptime (TM tbl ! j) = Inr t \<and> TM df ! j = TmTime t)"
proof -
  from assms obtain ts where "to_time_col strptime (TM tbl) = Inr ts" and "TM df = ts"
    by (auto simp: pf_read_and_process_data_def Let_def convert_TM_def split: sum.splits)
  then show ?thesis using to_time_col_Inr by blast
qed

lemma pf_read_TM_str_fail:
  assumes "TM tbl = c # cs" and "is_str c"
    and "pf_read_and_process_data strptime tbl = Inl e"
  shows "\<exists>j < length (TM tbl). strptime (TM tbl ! j) = Inl e"
proof -
  from assms have "to_time_col strptime (TM tbl) = Inl e"
    by (auto simp: pf_read_and_process_data_def Let_def convert_TM_def split: sum.splits)
  then show ?thesis by (rule to_time_col_Inl)
qed

lemma pf_read_TM_other:
  assumes "TM tbl = c # cs" and "\<not> is_str c"
  shows "\<exists>df. pf_read_and_process_data strptime tbl = Inr df \<and> TM df = TM tbl"
  using assms by (simp add: pf_read_and_process_data_def Let_def convert_TM_def)

text \<open>
  Claim C10. \<open>read_and_process_data\<close>, in either program, decides on the first cell of
  \<open>TM\<close> alone. When the first cell is a string, every cell of the column is converted:
  where the function returns, each cell of the result is the time its cell converts to,
  and where it raises, the error is that of a cell that does not convert. When the first
  cell is not a string the function returns and the column is the one of the table, cell
  for cell, whatever the other cells are.
\<close>

theorem read_and_process_data_TM:
  "(TM tbl = c # cs \<and> is_str c
      \<and> wa_read_and_process_data strptime tbl air_density rotor_diameter rotor_height = Inr df
    \<longrightarrow> length (TM df) = length (TM tbl)
        \<and> (\<forall>j < length (TM tbl). \<exists>t. strptime (TM tbl ! j) = Inr t \<and> TM df ! j = TmTime t))
   \<and> (TM tbl = c # cs \<and> is_str c
      \<and> wa_read_and_process_data strptime tbl air_density rotor_diameter rotor_height = Inl e
    \<longrightarrow> (\<exists>j < length (TM tbl). strptime (TM tbl ! j) = Inl e))
   \<and> (TM tbl = c # cs \<and> \<not> is_str c
    \<longrightarrow> (\<exists>df. wa_read_and_process_data strptime tbl air_density rotor_diameter rotor_height
                 = Inr df \<and> TM df = TM tbl))
   \<and> (TM tbl = c # cs \<and> is_str c \<and> pf_read_and_process_data strptime tbl = Inr df'
    \<longrightarrow> length (TM df') = length (TM tbl)
        \<and> (\<forall>j < length (TM tbl). \<exists>t. strptime (TM tbl ! j) = Inr t \<and> TM df' ! j = TmTime t))
   \<and> (TM tbl = c # cs \<and> is_str c \<and> pf_read_and_process_data strptime tbl = Inl e'
    \<longrightarrow> (\<exists>j < length (TM tbl). strptime (TM tbl ! j) = Inl e'))
   \<and> (TM tbl = c # cs \<and> \<not> is_str c
    \<longrightarrow> (\<exists>df. pf_read_and_process_data strptime tbl = Inr df \<and> TM df = TM tbl))"
  using wa_read_TM_str [of tbl c cs strptime air_density rotor_diameter rotor_height df]
    wa_read_TM_str_fail [of tbl c cs strptime air_density rotor_diameter rotor_height e]
    wa_read_TM_other [of tbl c cs strptime air_density rotor_diameter rotor_height]
    pf_read_TM_str [of tbl c cs strptime df']
    pf_read_TM_str_fail [of tbl c cs strptime e']
    pf_read_TM_other [of tbl c cs strptime]
  by blast

theorem read_and_process_data_TM_witness:
  "(\<exists>df. wa_read_and_process_data sample_strptime
       (table [400, 410] [5, 6] [200, 0] [210, 0] [220, 0] [3, 1] [3, 1] [3, 1] [4, 5]
          [TmTime (hms 10 0 29), TmStr ''10:00:31''] (Some [16, 5])) 1.225 10 10 = Inr df
      \<and> TM df = [TmTime (hms 10 0 29), TmStr ''10:00:31''])
   \<and> (\<exists>df. pf_read_and_process_data sample_strptime
       (table [400, 410] [5, 6] [200, 0] [210, 0] [220, 0] [3, 1] [3, 1] [3, 1] [4, 5]
          [TmTime (hms 10 0 29), TmStr ''10:00:31''] (Some [16, 5])) = Inr df
      \<and> TM df = [TmTime (hms 10 0 29), TmStr ''10:00:31''])
   \<and> (\<exists>df. wa_read_and_process_data sample_strptime
       (table [400, 410] [5, 6] [200, 0] [210, 0] [220, 0] [3, 1] [3, 1] [3, 1] [4, 5]
          [TmStr ''10:00:29'', TmStr ''10:00:31''] (Some [16, 5])) 1.225 10 10 = Inr df
      \<and> TM df = [TmTime (hms 10 0 29), TmTime (hms 10 0 31)])
   \<and> wa_read_and_process_data sample_strptime
       (table [400, 410] [5, 6] [200, 0] [210, 0] [220, 0] [3, 1] [3, 1] [3, 1] [4, 5]
          [TmStr ''10:00:29'', TmTime (hms 10 0 31)] (Some [16, 5])) 1.225 10 10 = Inl TypeError"
proof -
  let ?mixed = "table [400, 410] [5, 6] [200, 0] [210, 0] [220, 0] [3, 1] [3, 1] [3, 1] [4, 5]
          [TmTime (hms 10 0 29), TmStr ''10:00:31''] (Some [16, 5])"
  let ?strs = "table [400, 410] [5, 6] [200, 0] [210, 0] [220, 0] [3, 1] [3, 1] [3, 1] [4, 5]
          [TmStr ''10:00:29'', TmStr ''10:00:31''] (Some [16, 5])"
  let ?bad = "table [400, 410] [5, 6] [200, 0] [210, 0] [220, 0] [3, 1] [3, 1] [3, 1] [4, 5]
          [TmStr ''10:00:29'', TmTime (hms 10 0 31)] (Some [16, 5])"
  have m: "TM ?mixed = TmTime (hms 10 0 29) # [TmStr ''10:00:31'']"
    "\<not> is_str (TmTime (hms 10 0 29))"
    by (simp_all add: table_def)
  from read_and_process_data_TM [of ?mixed "TmTime (hms 10 0 29)" "[TmStr ''10:00:31'']"
      sample_strptime "1.225" 10 10] m
  have a: "(\<exists>df. wa_read_and_process_data sample_strptime ?mixed 1.225 10 10 = Inr df
              \<and> TM df = [TmTime (hms 10 0 29), TmStr ''10:00:31''])
         \<and> (\<exists>df. pf_read_and_process_data sample_strptime ?mixed = Inr df
              \<and> TM df = [TmTime (hms 10 0 29), TmStr ''10:00:31''])"
    by simp
  have s: "TM ?strs = TmStr ''10:00:29'' # [TmStr ''10:00:31'']" "is_str (TmStr ''10:00:29'')"
    by (simp_all add: table_def)
  obtain df where r: "wa_read_and_process_data sample_strptime ?strs 1.225 10 10 = Inr df"
    by (simp add: wa_read_and_process_data_def convert_TM_def Let_def table_def)
  from read_and_process_data_TM [of ?strs "TmStr ''10:00:29''" "[TmStr ''10:00:31'']"
      sample_strptime "1.225" 10 10 df] s r
  have l: "length (TM df) = 2"
    and "\<forall>j < 2. \<exists>t. sample_strptime ([TmStr ''10:00:29'', TmStr ''10:00:31''] ! j) = Inr t
            \<and> TM df ! j = TmTime t"
    by simp_all
  then have "TM df ! 0 = TmTime (hms 10 0 29)" and "TM df ! 1 = TmTime (hms 10 0 31)"
    by (auto simp: All_less_Suc numeral_2_eq_2)
  with l have "TM df = [TmTime (hms 10 0 29), TmTime (hms 10 0 31)]"
    by (cases "TM df"; cases "tl (TM df)") auto
  with r have b: "\<exists>df. wa_read_and_process_data sample_strptime ?strs 1.225 10 10 = Inr df
      \<and> TM df = [TmTime (hms 10 0 29), TmTime (hms 10 0 31)]"
    by blast
  have c: "wa_read_and_process_data sample_strptime ?bad 1.225 10 10 = Inl TypeError"
    by (simp add: wa_read_and_process_data_def convert_TM_def Let_def table_def)
  from a b c show ?thesis by blast
qed


subsection \<open>Efficiency and its average\<close>

lemma sample_names:
  "map_of error_codes 16 = Some ''System generating power normally''"
  "map_of error_codes 5 = Some ''Overcurrent during motor operation''"
  by (simp_all add: error_codes_def)

lemma efficiency_zero_ac:
  assumes "is_zero ac"
  shows "\<not> is_finite (fl_mul (fl_div dc ac) (Fin 100))"
proof -
  from assms have a: "\<not> is_nan ac" "\<not> is_inf ac"
    by (cases ac; simp add: is_zero_def)+
  have z: "\<not> is_zero (Fin 100)" by (simp add: is_zero_def)
  show ?thesis
  proof (cases "is_nan dc \<or> is_zero dc")
    case True
    with assms a have "fl_div dc ac = NaN"
      by (cases dc) (auto simp: fl_div_def is_zero_def)
    then show ?thesis by (simp add: fl_mul_def)
  next
    case False
    with assms a have "fl_div dc ac = fl_inf (is_neg dc \<noteq> is_neg ac)"
      by (cases dc) (auto simp: fl_div_def is_zero_def)
    then show ?thesis by (simp add: fl_mul_def fl_inf_def is_zero_def)
  qed
qed

lemma efficiency_col_nth:
  assumes "length dc = length ac" and "i < length ac"
  shows "col_float_mul_const (col_float_div dc ac) 100 ! i
           = fl_mul (fl_div (dc ! i) (ac ! i)) (Fin 100)"
  using assms by (simp add: col_float_mul_const_def col_float_div_def)

lemma wa_read_efficiency:
  assumes ok: "frame_ok tbl"
    and r: "wa_read_and_process_data strptime tbl rho d h = Inr df"
  shows "\<exists>dc ac. Power_DC df = Some dc \<and> Power_AC df = Some ac
           \<and> length dc = nrows tbl \<and> length ac = nrows tbl
           \<and> Efficiency df
               = Some (col_float_mul_const (col_float_div (map Fin dc) (map Fin ac)) 100)"
proof -
  from ok have "length (Vdc tbl) = nrows tbl" "length (Idc tbl) = nrows tbl"
    "length (Euv tbl) = nrows tbl" "length (Evw tbl) = nrows tbl" "length (Ewu tbl) = nrows tbl"
    "length (Iu tbl) = nrows tbl" "length (Iv tbl) = nrows tbl" "length (Iw tbl) = nrows tbl"
    by (simp_all add: frame_ok_def Let_def)
  with convert_TM_cols [OF r [unfolded wa_read_and_process_data_def Let_def]]
  show ?thesis
    by (simp add: col_div_const_def col_mul_def col_add_def col_mul_const_def)
qed

lemma valid_sel:
  assumes "length eff = length ac"
  shows "sel (map2 (\<lambda>e a. fl_lt e (Fin 100) \<and> a > 0) eff ac) eff = valid_efficiencies eff ac"
  using assms
  by (induction eff ac rule: list_induct2) (simp_all add: sel_def valid_efficiencies_def)

lemma avg_efficiency_valid:
  assumes "length eff = length ac"
  shows "avg_efficiency eff ac
           = (if valid_efficiencies eff ac = [] then Fin 0
              else series_mean (valid_efficiencies eff ac))"
  by (simp add: avg_efficiency_def Let_def valid_sel [OF assms])

lemma valid_efficiencies_nonzero:
  assumes "length eff = length ac"
  shows "valid_efficiencies (sel (map (\<lambda>a. a \<noteq> 0) ac) eff) (filter (\<lambda>a. a \<noteq> 0) ac)
           = valid_efficiencies eff ac"
  using assms
  by (induction eff ac rule: list_induct2) (simp_all add: sel_def valid_efficiencies_def)

lemma runs_times:
  "(c, s, e) \<in> set (runs rows) \<Longrightarrow> s \<in> fst ` set rows \<and> e \<in> fst ` set rows"
proof (induction rows arbitrary: c s e)
  case Nil
  then show ?case by simp
next
  case outer: (Cons row rows)
  obtain t c0 where row: "row = (t, c0)" by (cases row)
  show ?case
  proof (cases "runs rows")
    case Nil
    with outer.prems row show ?thesis by simp
  next
    case inner: (Cons r rs)
    obtain c' s' e' where r: "r = (c', s', e')" by (cases r)
    have ih: "\<And>c s e. (c, s, e) \<in> set (r # rs) \<Longrightarrow> s \<in> fst ` set rows \<and> e \<in> fst ` set rows"
      using outer.IH unfolding inner by blast
    from ih [of c' s' e'] r have h: "s' \<in> fst ` set rows" "e' \<in> fst ` set rows" by simp_all
    from outer.prems have "(c, s, e) = (c0, t, e') \<or> (c, s, e) = (c0, t, t) \<or> (c, s, e) \<in> set (r # rs)"
      unfolding row by (auto simp: inner r split: if_splits)
    then show ?thesis
    proof (elim disjE)
      assume "(c, s, e) = (c0, t, e')"
      with h row show ?thesis by simp
    next
      assume "(c, s, e) = (c0, t, t)"
      with row show ?thesis by simp
    next
      assume "(c, s, e) \<in> set (r # rs)"
      from ih [OF this] show ?thesis by auto
    qed
  qed
qed

lemma dd_append_vals:
  "(k, vs) \<in> set (dd_append c v d) \<Longrightarrow> x \<in> set vs
     \<Longrightarrow> x = v \<or> (\<exists>k' vs'. (k', vs') \<in> set d \<and> x \<in> set vs')"
proof (induction d)
  case Nil
  then show ?case by simp
next
  case (Cons p d)
  obtain k0 vs0 where p: "p = (k0, vs0)" by (cases p)
  show ?case
  proof (cases "c = k0")
    case True
    with Cons.prems p have "(k, vs) = (k0, vs0 @ [v]) \<or> (k, vs) \<in> set d" by simp
    then show ?thesis
    proof
      assume "(k, vs) = (k0, vs0 @ [v])"
      with Cons.prems(2) have "x = v \<or> x \<in> set vs0" by auto
      with p show ?thesis by auto
    next
      assume "(k, vs) \<in> set d"
      with Cons.prems(2) show ?thesis by auto
    qed
  next
    case False
    with Cons.prems p have "(k, vs) = (k0, vs0) \<or> (k, vs) \<in> set (dd_append c v d)" by simp
    then show ?thesis
    proof
      assume "(k, vs) = (k0, vs0)"
      with Cons.prems(2) p show ?thesis by auto
    next
      assume "(k, vs) \<in> set (dd_append c v d)"
      from Cons.IH [OF this Cons.prems(2)] show ?thesis by auto
    qed
  qed
qed

lemma run_ranges_vals:
  "(k, vs) \<in> set (run_ranges rs) \<Longrightarrow> rg \<in> set vs
     \<Longrightarrow> \<exists>c s e. (c, s, e) \<in> set rs \<and> rg = (Some s, e)"
proof (induction rs arbitrary: k vs rule: rev_induct)
  case Nil
  then show ?case by (simp add: run_ranges_def)
next
  case (snoc r rs)
  obtain c s e where r: "r = (c, s, e)" by (cases r)
  have old: "\<And>k' vs'. (k', vs') \<in> set (run_ranges rs) \<Longrightarrow> rg \<in> set vs'
      \<Longrightarrow> \<exists>c s e. (c, s, e) \<in> set (rs @ [r]) \<and> rg = (Some s, e)"
  proof -
    fix k' vs' assume "(k', vs') \<in> set (run_ranges rs)" and "rg \<in> set vs'"
    from snoc.IH [OF this] obtain c1 s1 e1 where "(c1, s1, e1) \<in> set rs" "rg = (Some s1, e1)"
      by blast
    then have "(c1, s1, e1) \<in> set (rs @ [r]) \<and> rg = (Some s1, e1)" by simp
    then show "\<exists>c s e. (c, s, e) \<in> set (rs @ [r]) \<and> rg = (Some s, e)" by blast
  qed
  show ?case
  proof (cases "c = 16")
    case True
    with snoc.prems r have "(k, vs) \<in> set (run_ranges rs)" by (simp add: run_ranges_snoc)
    from old [OF this snoc.prems(2)] show ?thesis .
  next
    case False
    with snoc.prems r have "(k, vs) \<in> set (dd_append c (Some s, e) (run_ranges rs))"
      by (simp add: run_ranges_snoc)
    from dd_append_vals [OF this snoc.prems(2)]
    have "rg = (Some s, e) \<or> (\<exists>k' vs'. (k', vs') \<in> set (run_ranges rs) \<and> rg \<in> set vs')" .
    then show ?thesis
    proof
      assume "rg = (Some s, e)"
      with r have "(c, s, e) \<in> set (rs @ [r]) \<and> rg = (Some s, e)" by simp
      then show ?thesis by blast
    next
      assume "\<exists>k' vs'. (k', vs') \<in> set (run_ranges rs) \<and> rg \<in> set vs'"
      then obtain k' vs' where "(k', vs') \<in> set (run_ranges rs)" "rg \<in> set vs'" by blast
      then show ?thesis by (rule old)
    qed
  qed
qed

lemma map_err_total:
  assumes "\<forall>x \<in> set xs. \<exists>y. f x = Inr y"
  shows "\<exists>ys. map_err f xs = Inr ys"
  using assms by (induction xs) auto

lemma format_range_ok:
  assumes "\<not> is_str s" and "\<not> is_str e"
  shows "format_range (Some s, e) = Inr (s, e)"
  using assms by (cases s; cases e) (simp_all add: format_range_def)

lemma timeline_total:
  assumes "\<forall>(k, vs) \<in> set ranges. \<forall>rg \<in> set vs. \<exists>s e. rg = (Some s, e) \<and> \<not> is_str s \<and> \<not> is_str e"
  shows "\<exists>entries. timeline cat ranges = Inr entries"
  unfolding timeline_def
proof (rule map_err_total, rule ballI)
  fix code assume "code \<in> set (filter (\<lambda>code. code \<noteq> 16) (sort (map fst ranges)))"
  then have "code \<in> fst ` set ranges" by auto
  then obtain rs where m: "map_of ranges code = Some rs"
    by (metis map_of_eq_None_iff not_None_eq)
  then have "(code, rs) \<in> set ranges" by (rule map_of_SomeD)
  then have rs: "\<forall>rg \<in> set rs. \<exists>s e. rg = (Some s, e) \<and> \<not> is_str s \<and> \<not> is_str e"
    using assms by blast
  have "\<forall>rg \<in> set rs. \<exists>y. format_range rg = Inr y"
  proof
    fix rg assume "rg \<in> set rs"
    with rs obtain s e where "rg = (Some s, e)" "\<not> is_str s" "\<not> is_str e" by blast
    then show "\<exists>y. format_range rg = Inr y" by (simp add: format_range_ok)
  qed
  then obtain fs where "map_err format_range rs = Inr fs"
    using map_err_total by blast
  with m show "\<exists>y. (case map_of ranges code of None \<Rightarrow> Inl KeyError
      | Some rs \<Rightarrow> (case map_err format_range rs of Inl e \<Rightarrow> Inl e
          | Inr fs \<Rightarrow> Inr (code, code_name cat code, fs))) = Inr y"
    by simp
qed

lemma wa_error_analysis_total:
  assumes ok: "frame_ok df" and c: "CODE_1 df = Some codes"
    and e: "Efficiency df = Some eff" and a: "Power_AC df = Some ac"
    and t: "\<forall>t \<in> set (TM df). \<not> is_str t" and g: "get_frame h r = df"
  shows "\<exists>entries. wa_error_analysis r h = (Analysis (avg_efficiency eff ac) entries, h)"
proof -
  have f: "find_error_time_ranges df error_codes = Inr (run_ranges (runs (zip (TM df) codes)))"
    using ok c by (rule find_error_time_ranges_runs)
  have "\<forall>(k, vs) \<in> set (run_ranges (runs (zip (TM df) codes))).
          \<forall>rg \<in> set vs. \<exists>s e. rg = (Some s, e) \<and> \<not> is_str s \<and> \<not> is_str e"
  proof (clarify)
    fix k vs a b assume kv: "(k, vs) \<in> set (run_ranges (runs (zip (TM df) codes)))"
      and rg: "(a, b) \<in> set vs"
    from run_ranges_vals [OF kv rg] obtain c0 s e0 where
      m: "(c0, s, e0) \<in> set (runs (zip (TM df) codes))" and eq: "(a, b) = (Some s, e0)"
      by blast
    from runs_times [OF m] have "s \<in> set (TM df)" "e0 \<in> set (TM df)"
      by (auto dest: set_zip_leftD)
    with t eq show "\<exists>s e. (a, b) = (Some s, e) \<and> \<not> is_str s \<and> \<not> is_str e" by auto
  qed
  from timeline_total [OF this] obtain entries where
    "timeline error_codes (run_ranges (runs (zip (TM df) codes))) = Inr entries" by blast
  with f c e a g show ?thesis
    by (simp add: wa_error_analysis_def Let_def)
qed


text \<open>
  Claim C5. The efficiency of a row whose \<open>Power_AC\<close> is a zero, of either sign, is an
  infinity or NaN whatever \<open>Power_DC\<close> is: not a number, so not 0, and the cell is
  computed without an exception. \<open>read_and_process_data\<close> of \<^verbatim>\<open>wind_analysis.py\<close>
  stores these cells in the column \<open>Efficiency\<close>. On every frame with a status column
  whose times can be formatted, \<open>error_analysis\<close> returns its analysis, and the average
  in it is the mean of the efficiencies of the rows with \<open>efficiency < 100\<close> and
  \<open>Power_AC > 0\<close>, or 0 when there is no such row; the rows with \<open>Power_AC = 0\<close> can be
  removed from the frame without a change to the efficiencies it averages.
\<close>

theorem efficiency_average:
  "(length dc = length pac \<and> i < length pac \<and> is_zero (pac ! i)
      \<longrightarrow> \<not> is_finite (col_float_mul_const (col_float_div dc pac) 100 ! i)
        \<and> \<not> is_zero (col_float_mul_const (col_float_div dc pac) 100 ! i))
   \<and> (frame_ok tbl
        \<and> wa_read_and_process_data strptime tbl air_density rotor_diameter rotor_height = Inr df'
      \<longrightarrow> (\<exists>dc' ac'. Power_DC df' = Some dc' \<and> Power_AC df' = Some ac'
             \<and> length dc' = nrows tbl \<and> length ac' = nrows tbl
             \<and> Efficiency df'
                 = Some (col_float_mul_const (col_float_div (map Fin dc') (map Fin ac')) 100)))
   \<and> (frame_ok df \<and> CODE_1 df = Some codes \<and> Efficiency df = Some eff \<and> Power_AC df = Some ac
        \<and> (\<forall>t \<in> set (TM df). \<not> is_str t) \<and> get_frame h r = df
      \<longrightarrow> (\<exists>entries. wa_error_analysis r h
               = (Analysis (if valid_efficiencies eff ac = [] then Fin 0
                            else series_mean (valid_efficiencies eff ac)) entries, h))
        \<and> valid_efficiencies (sel (map (\<lambda>a. a \<noteq> 0) ac) eff) (filter (\<lambda>a. a \<noteq> 0) ac)
            = valid_efficiencies eff ac)"
proof (intro conjI impI; (elim conjE)?)
  assume l: "length dc = length pac" and i: "i < length pac" and z: "is_zero (pac ! i)"
  from l i have "col_float_mul_const (col_float_div dc pac) 100 ! i
           = fl_mul (fl_div (dc ! i) (pac ! i)) (Fin 100)"
    by (rule efficiency_col_nth)
  with efficiency_zero_ac [OF z, of "dc ! i"]
  show "\<not> is_finite (col_float_mul_const (col_float_div dc pac) 100 ! i)" by simp
  then show "\<not> is_zero (col_float_mul_const (col_float_div dc pac) 100 ! i)"
    by (simp add: is_zero_def)
next
  assume "frame_ok tbl"
    and "wa_read_and_process_data strptime tbl air_density rotor_diameter rotor_height = Inr df'"
  then show "\<exists>dc' ac'. Power_DC df' = Some dc' \<and> Power_AC df' = Some ac'
             \<and> length dc' = nrows tbl \<and> length ac' = nrows tbl
             \<and> Efficiency df'
                 = Some (col_float_mul_const (col_float_div (map Fin dc') (map Fin ac')) 100)"
    by (rule wa_read_efficiency)
next
  assume ok: "frame_ok df" and c: "CODE_1 df = Some codes" and e: "Efficiency df = Some eff"
    and a: "Power_AC df = Some ac" and t: "\<forall>t \<in> set (TM df). \<not> is_str t"
    and g: "get_frame h r = df"
  from ok e a have l: "length eff = length ac"
    by (simp add: frame_ok_def Let_def col_ok_def)
  from wa_error_analysis_total [OF ok c e a t g] obtain entries where
    "wa_error_analysis r h = (Analysis (avg_efficiency eff ac) entries, h)" by blast
  then have "wa_error_analysis r h
               = (Analysis (if valid_efficiencies eff ac = [] then Fin 0
                            else series_mean (valid_efficiencies eff ac)) entries, h)"
    by (simp only: avg_efficiency_valid [OF l])
  then show "\<exists>entries. wa_error_analysis r h
               = (Analysis (if valid_efficiencies eff ac = [] then Fin 0
                            else series_mean (valid_efficiencies eff ac)) entries, h)" ..
  from l show "valid_efficiencies (sel (map (\<lambda>a. a \<noteq> 0) ac) eff) (filter (\<lambda>a. a \<noteq> 0) ac)
            = valid_efficiencies eff ac"
    by (rule valid_efficiencies_nonzero)
qed

lemma efficiency_cells_sample:
  "col_float_mul_const (col_float_div [Fin 1, Fin 0] [NZero, Fin 0]) 100 = [NInf, NaN]"
  by (simp add: col_float_mul_const_def col_float_div_def fl_div_def fl_mul_def is_zero_def
      fl_inf_def)

lemma zero_power_read:
  "\<exists>df. wa_read_and_process_data sample_strptime zero_power_table 1.225 10 10 = Inr df
     \<and> Power_AC df = Some [0, 0] \<and> Efficiency df = Some [PInf, PInf]
     \<and> CODE_1 df = Some [16, 5] \<and> TM df = [TmTime (hms 10 0 29), TmTime (hms 10 0 31)]
     \<and> frame_ok df"
  by (simp add: wa_read_and_process_data_def zero_power_table_def table_def Let_def
      convert_TM_def col_div_const_def col_mul_def col_add_def col_mul_const_def
      col_float_mul_const_def col_float_div_def fl_div_def fl_mul_def is_zero_def fl_inf_def
      frame_ok_def nrows_def col_ok_def)

lemma timeline_sample:
  assumes ok: "frame_ok df" and c: "CODE_1 df = Some [c0, 5]" and n: "c0 = 16"
    and t: "TM df = [TmTime t0, TmTime t1]"
    and e: "Efficiency df = Some eff" and a: "Power_AC df = Some ac"
  shows "\<exists>avg. wa_error_analysis 0 [df]
     = (Analysis avg [(5, ''Overcurrent during motor operation'', [(TmTime t1, TmTime t1)])], [df])"
  using find_error_time_ranges_runs [OF ok c, of error_codes] n t e a c
  by (simp add: wa_error_analysis_def Let_def get_frame_def run_ranges_def timeline_def
      format_range_def code_name_def sample_names)


lemma efficiency_frame_cols:
  "frame_ok efficiency_frame" "CODE_1 efficiency_frame = Some [16, 16, 5, 16]"
  "Efficiency efficiency_frame = Some [Fin 50, Fin 70, PInf, Fin 25]"
  "Power_AC efficiency_frame = Some [1, 2, 0, - 1]"
  "TM efficiency_frame
     = [TmTime (hms 10 0 29), TmTime (hms 10 0 31), TmTime (hms 10 1 0), TmTime (hms 10 1 10)]"
  "get_frame [efficiency_frame] 0 = efficiency_frame"
  by (simp_all add: efficiency_frame_def sample_frame_def table_def frame_ok_def nrows_def
      col_ok_def get_frame_def)

lemma efficiency_frame_timeline:
  "\<exists>avg. wa_error_analysis 0 [efficiency_frame]
     = (Analysis avg [(5, ''Overcurrent during motor operation'',
                       [(TmTime (hms 10 1 0), TmTime (hms 10 1 0))])], [efficiency_frame])"
  using find_error_time_ranges_runs [OF efficiency_frame_cols(1,2), of error_codes]
  by (simp add: wa_error_analysis_def Let_def efficiency_frame_cols run_ranges_def timeline_def
      format_range_def code_name_def sample_names)

lemma series_mean_sample: "series_mean [Fin 50, Fin 70] = Fin 60"
  using round64_int [of 50] round64_int [of 120] round64_int [of 60]
  by (simp add: series_mean_def fl_add_def fl_div_def fl_round_def Let_def max_float_def
      is_zero_def)

lemma valid_efficiencies_sample:
  "valid_efficiencies [Fin 50, Fin 70, PInf, Fin 25] [1, 2, 0, - 1] = [Fin 50, Fin 70]"
  "valid_efficiencies [PInf, PInf] [0, 0] = []"
  by (simp_all add: valid_efficiencies_def fl_lt_def)

theorem efficiency_average_witness:
  "col_float_mul_const (col_float_div [Fin 1, Fin 0] [NZero, Fin 0]) 100 = [NInf, NaN]
   \<and> \<not> is_finite (col_float_mul_const (col_float_div [Fin 1, Fin 0] [NZero, Fin 0]) 100 ! 0)
   \<and> (\<exists>df. wa_read_and_process_data sample_strptime zero_power_table 1.225 10 10 = Inr df
         \<and> Power_AC df = Some [0, 0] \<and> Efficiency df = Some [PInf, PInf]
         \<and> (\<exists>dc. Power_DC df = Some dc
               \<and> Efficiency df
                   = Some (col_float_mul_const (col_float_div (map Fin dc) (map Fin [0, 0])) 100))
         \<and> wa_error_analysis 0 [df]
             = (Analysis (Fin 0) [(5, ''Overcurrent during motor operation'',
                                   [(TmTime (hms 10 0 31), TmTime (hms 10 0 31))])], [df]))
   \<and> wa_error_analysis 0 [efficiency_frame]
       = (Analysis (Fin 60) [(5, ''Overcurrent during motor operation'',
                              [(TmTime (hms 10 1 0), TmTime (hms 10 1 0))])], [efficiency_frame])"
proof -
  from zero_power_read obtain df where
    r: "wa_read_and_process_data sample_strptime zero_power_table 1.225 10 10 = Inr df"
    and a: "Power_AC df = Some [0, 0]" and e: "Efficiency df = Some [PInf, PInf]"
    and c: "CODE_1 df = Some [16, 5]"
    and t: "TM df = [TmTime (hms 10 0 29), TmTime (hms 10 0 31)]" and ok: "frame_ok df"
    by (elim exE conjE)
  have tok: "frame_ok zero_power_table"
    by (simp add: zero_power_table_def table_def frame_ok_def nrows_def col_ok_def)
  have ts: "\<forall>t \<in> set (TM df). \<not> is_str t" by (simp add: t)
  have g: "get_frame [df] 0 = df" by (simp add: get_frame_def)
  note th1 = efficiency_average [where dc = "[Fin 1, Fin 0]" and pac = "[NZero, Fin 0]"
      and i = 0 and tbl = zero_power_table and strptime = sample_strptime
      and air_density = "1.225" and rotor_diameter = 10 and rotor_height = 10 and df' = df
      and df = df and codes = "[16, 5]" and eff = "[PInf, PInf]" and ac = "[0, 0]"
      and h = "[df]" and r = 0]
  have z: "length [Fin 1, Fin 0] = length [NZero, Fin 0] \<and> 0 < length [NZero, Fin 0]
      \<and> is_zero ([NZero, Fin 0] ! 0)"
    by (simp add: is_zero_def)
  from th1 z
  have n: "\<not> is_finite (col_float_mul_const (col_float_div [Fin 1, Fin 0] [NZero, Fin 0]) 100 ! 0)"
    by blast
  from th1 tok r obtain dc' ac' where "Power_DC df = Some dc'" and "Power_AC df = Some ac'"
    and "Efficiency df = Some (col_float_mul_const (col_float_div (map Fin dc') (map Fin ac')) 100)"
    by blast
  with a have d: "\<exists>dc. Power_DC df = Some dc
               \<and> Efficiency df
                   = Some (col_float_mul_const (col_float_div (map Fin dc) (map Fin [0, 0])) 100)"
    by simp
  from th1 ok c e a ts g obtain entries where
    "wa_error_analysis 0 [df]
       = (Analysis (if valid_efficiencies [PInf, PInf] [0, 0] = [] then Fin 0
                    else series_mean (valid_efficiencies [PInf, PInf] [0, 0])) entries, [df])"
    by blast
  then have w1: "wa_error_analysis 0 [df] = (Analysis (Fin 0) entries, [df])"
    by (simp add: valid_efficiencies_sample)
  from timeline_sample [OF ok c refl t e a] w1
  have p1: "wa_error_analysis 0 [df]
             = (Analysis (Fin 0) [(5, ''Overcurrent during motor operation'',
                                   [(TmTime (hms 10 0 31), TmTime (hms 10 0 31))])], [df])"
    by auto
  have ts2: "\<forall>t \<in> set (TM efficiency_frame). \<not> is_str t"
    by (simp add: efficiency_frame_cols)
  note th2 = efficiency_average [where dc = "[Fin 1, Fin 0]" and pac = "[NZero, Fin 0]"
      and i = 0 and tbl = zero_power_table and strptime = sample_strptime
      and air_density = "1.225" and rotor_diameter = 10 and rotor_height = 10 and df' = df
      and df = efficiency_frame and codes = "[16, 16, 5, 16]"
      and eff = "[Fin 50, Fin 70, PInf, Fin 25]" and ac = "[1, 2, 0, - 1]"
      and h = "[efficiency_frame]" and r = 0]
  from th2 efficiency_frame_cols ts2 obtain entries2 where
    "wa_error_analysis 0 [efficiency_frame]
       = (Analysis (if valid_efficiencies [Fin 50, Fin 70, PInf, Fin 25] [1, 2, 0, - 1] = []
                    then Fin 0
                    else series_mean (valid_efficiencies [Fin 50, Fin 70, PInf, Fin 25]
                           [1, 2, 0, - 1])) entries2, [efficiency_frame])"
    by blast
  then have w2: "wa_error_analysis 0 [efficiency_frame] = (Analysis (Fin 60) entries2,
      [efficiency_frame])"
    by (simp add: valid_efficiencies_sample series_mean_sample)
  from efficiency_frame_timeline w2
  have p2: "wa_error_analysis 0 [efficiency_frame]
       = (Analysis (Fin 60) [(5, ''Overcurrent during motor operation'',
                              [(TmTime (hms 10 1 0), TmTime (hms 10 1 0))])], [efficiency_frame])"
    by auto
  from efficiency_cells_sample n r a e d p1 p2 show ?thesis by blast
qed



subsection \<open>Selections, groups and means\<close>

lemma sel_map: "sel (map P xs) (map f xs) = map f (filter P xs)"
  by (induction xs) (simp_all add: sel_def)

lemma rows_cols:
  assumes "length ws = length dc" and "length dc = length ac"
  shows "ws = map fst (zip ws (zip dc ac))" and "dc = map (fst \<circ> snd) (zip ws (zip dc ac))"
    and "ac = map (snd \<circ> snd) (zip ws (zip dc ac))"
  using assms by (induction ws dc ac rule: list_induct3) simp_all

lemma groupby_mean_keys: "map fst (groupby_mean ks cols) = sort (remdups ks)"
  by (simp add: groupby_mean_def comp_def)

lemma groupby_mean_entry:
  assumes "(k, ms) \<in> set (groupby_mean ks cols)"
  shows "k \<in> set ks \<and> ms = map (\<lambda>c. mean (group_vals ks c k)) cols"
  using assms by (auto simp: groupby_mean_def)

lemma group_vals_map:
  "group_vals (map kf rows) (map vf rows) k = map vf (filter (\<lambda>r. kf r = k) rows)"
  by (induction rows) (simp_all add: group_vals_def)

lemma group_vals_length:
  "length vs = length ks \<Longrightarrow> length (group_vals ks vs k) = length (filter (\<lambda>k'. k' = k) ks)"
  by (induction vs ks rule: list_induct2) (simp_all add: group_vals_def)

lemma group_vals_nonempty:
  assumes "length vs = length ks" and "k \<in> set ks"
  shows "group_vals ks vs k \<noteq> []"
proof -
  from assms(2) have "filter (\<lambda>k'. k' = k) ks \<noteq> []"
    by (simp add: filter_empty_conv)
  with group_vals_length [OF assms(1), of k] show ?thesis by auto
qed

lemma group_vals_subset: "set (group_vals ks vs k) \<subseteq> set vs"
  by (auto simp: group_vals_def dest: set_zip_rightD)

lemma sum_list_less:
  "xs \<noteq> [] \<Longrightarrow> \<forall>x \<in> set xs. x < (c :: real) \<Longrightarrow> sum_list xs < c * real (length xs)"
proof (induction xs)
  case Nil
  then show ?case by simp
next
  case (Cons x xs)
  show ?case
  proof (cases "xs = []")
    case True
    with Cons.prems show ?thesis by simp
  next
    case False
    with Cons have "sum_list xs < c * real (length xs)" by simp
    moreover from Cons.prems have "x < c" by simp
    ultimately show ?thesis by (simp add: algebra_simps)
  qed
qed

lemma mean_less:
  assumes "xs \<noteq> []" and "\<forall>x \<in> set xs. x < c"
  shows "mean xs < c"
proof -
  from assms have "sum_list xs < c * real (length xs)" by (rule sum_list_less)
  moreover from assms(1) have "0 < real (length xs)" by simp
  ultimately show ?thesis by (simp add: mean_def pos_divide_less_eq)
qed

lemma sum_list_uminus: "sum_list (map uminus xs) = - sum_list (xs :: real list)"
  by (induction xs) simp_all

lemma mean_greater:
  assumes "xs \<noteq> []" and "\<forall>x \<in> set xs. c < x"
  shows "c < mean xs"
proof -
  from assms have "mean (map uminus xs) < - c"
    by (intro mean_less) auto
  moreover have "mean (map uminus xs) = - mean xs"
    by (simp add: mean_def sum_list_uminus)
  ultimately show ?thesis by simp
qed

subsection \<open>The power factor\<close>

lemma pf_calc_fst:
  assumes "Power_DC (get_frame h r) = Some dc" and "Power_AC (get_frame h r) = Some ac"
  shows "fst (pf_calculate_power_factors r h) =
    (let ws = WSD (get_frame h r);
         keep = map2 (\<lambda>w (d, a). w \<ge> 3 \<and> d > 0 \<and> a > 0) ws (zip dc ac);
         pf = col_div (sel keep dc) (sel keep ac);
         keep2 = map (\<lambda>q. q < 1) pf
     in Inr (groupby_mean (sel keep2 (map (\<lambda>w. real_of_int (floor w)) (sel keep ws)))
           [sel keep2 pf]))"
  using assms
  by (simp add: pf_calculate_power_factors_def Let_def new_frame_def frame_filter_def
      get_frame_def set_frame_def nth_append list_update_append)

lemma pf_calc_rows:
  assumes l: "length ws = length dc" "length dc = length ac"
  shows "(let keep = map2 (\<lambda>w (d, a). w \<ge> 3 \<and> d > 0 \<and> a > 0) ws (zip dc ac);
         pf = col_div (sel keep dc) (sel keep ac);
         keep2 = map (\<lambda>q. q < 1) pf
     in Inr (groupby_mean (sel keep2 (map (\<lambda>w. real_of_int (floor w)) (sel keep ws)))
           [sel keep2 pf]))
    = Inr (groupby_mean (map (\<lambda>(w, d, a). real_of_int (floor w)) (power_factor_rows ws dc ac))
       [map (\<lambda>(w, d, a). d / a) (power_factor_rows ws dc ac)])"
proof -
  define rows where "rows = zip ws (zip dc ac)"
  define P1 where "P1 = (\<lambda>(w :: real, d :: real, a :: real). w \<ge> 3 \<and> d > 0 \<and> a > 0)"
  define rows1 where "rows1 = filter P1 rows"
  define P2 where "P2 = (\<lambda>(w :: real, d :: real, a :: real). d / a < 1)"
  have c: "ws = map fst rows" "dc = map (fst \<circ> snd) rows" "ac = map (snd \<circ> snd) rows"
    unfolding rows_def using rows_cols [OF l] by simp_all
  have k: "map2 (\<lambda>w (d, a). w \<ge> 3 \<and> d > 0 \<and> a > 0) ws (zip dc ac) = map P1 rows"
    unfolding rows_def P1_def by (simp add: case_prod_unfold)
  have s: "sel (map P1 rows) ws = map fst rows1" "sel (map P1 rows) dc = map (fst \<circ> snd) rows1"
    "sel (map P1 rows) ac = map (snd \<circ> snd) rows1"
    unfolding rows1_def by (subst c, rule sel_map)+
  have q: "col_div (map (fst \<circ> snd) rows1) (map (snd \<circ> snd) rows1)
             = map (\<lambda>(w, d, a). d / a) rows1"
    by (simp add: col_div_def zip_map_map case_prod_unfold zip_same_conv_map)
  have k2: "map (\<lambda>q. q < 1) (map (\<lambda>(w, d, a). d / a) rows1) = map P2 rows1"
    unfolding P2_def by (simp add: case_prod_unfold)
  have f: "filter P2 rows1 = power_factor_rows ws dc ac"
    unfolding rows1_def rows_def power_factor_rows_def P1_def P2_def
    by (auto intro: filter_cong simp: case_prod_unfold)
  have a: "sel (map P2 rows1) (map (\<lambda>w. real_of_int (floor w)) (map fst rows1))
         = map (\<lambda>(w, d, a). real_of_int (floor w)) (filter P2 rows1)"
    using sel_map [of P2 rows1 "\<lambda>(w, d, a). real_of_int (floor w)"]
    by (simp add: case_prod_unfold comp_def)
  have b: "sel (map P2 rows1) (map (\<lambda>(w, d, a). d / a) rows1)
         = map (\<lambda>(w, d, a). d / a) (filter P2 rows1)"
    by (rule sel_map)
  show ?thesis
    unfolding Let_def k s q k2 a b f by (rule refl)
qed

lemma pf_calc_groups:
  assumes dc: "Power_DC (get_frame h r) = Some dc" and ac: "Power_AC (get_frame h r) = Some ac"
    and ok: "frame_ok (get_frame h r)"
  shows "fst (pf_calculate_power_factors r h)
     = Inr (groupby_mean
         (map (\<lambda>(w, d, a). real_of_int (floor w))
            (power_factor_rows (WSD (get_frame h r)) dc ac))
         [map (\<lambda>(w, d, a). d / a) (power_factor_rows (WSD (get_frame h r)) dc ac)])"
proof -
  from ok dc ac have "length (WSD (get_frame h r)) = length dc" "length dc = length ac"
    by (simp_all add: frame_ok_def Let_def col_ok_def nrows_def)
  from pf_calc_rows [OF this] pf_calc_fst [OF dc ac] show ?thesis
    by (simp add: Let_def)
qed

lemma power_factor_rows_props:
  assumes "(w, d, a) \<in> set (power_factor_rows ws dc ac)"
  shows "w \<ge> 3 \<and> d > 0 \<and> a > 0 \<and> d / a < 1"
  using assms by (simp add: power_factor_rows_def)

lemma power_factor_group:
  assumes "(k, ms) \<in> set (groupby_mean
                            (map (\<lambda>(w, d, a). real_of_int (floor w))
                               (rows :: (real \<times> real \<times> real) list))
                            [map (\<lambda>(w, d, a). d / a) rows])"
    and "\<forall>(w, d, a) \<in> set rows. d > 0 \<and> a > 0 \<and> d / a < (1::real)"
  shows "\<exists>m. ms = [m]
           \<and> filter (\<lambda>(w, d, a). real_of_int (floor w) = k) rows \<noteq> []
           \<and> m = mean (map (\<lambda>(w, d, a). d / a)
                          (filter (\<lambda>(w, d, a). real_of_int (floor w) = k) rows))
           \<and> 0 < m \<and> m < 1"
proof -
  let ?kf = "\<lambda>(w :: real, d :: real, a :: real). real_of_int (floor w)"
  let ?vf = "\<lambda>(w :: real, d :: real, a :: real). d / a"
  let ?g = "filter (\<lambda>r. ?kf r = k) rows"
  from groupby_mean_entry [OF assms(1)]
  have k: "k \<in> set (map ?kf rows)" and ms: "ms = [mean (group_vals (map ?kf rows) (map ?vf rows) k)]"
    by simp_all
  have gv: "group_vals (map ?kf rows) (map ?vf rows) k = map ?vf ?g"
    by (rule group_vals_map)
  from k have ne: "?g \<noteq> []"
    by (force simp: filter_empty_conv)
  from assms(2) have b: "\<forall>x \<in> set (map ?vf ?g). 0 < x \<and> x < 1"
    by auto
  from ne b have "mean (map ?vf ?g) < 1" by (intro mean_less) auto
  moreover from ne b have "0 < mean (map ?vf ?g)" by (intro mean_greater) auto
  moreover have "?g = filter (\<lambda>(w, d, a). real_of_int (floor w) = k) rows"
    by (simp add: case_prod_unfold)
  ultimately show ?thesis using ms gv ne by simp
qed

text \<open>
  Claim C7. On a frame with the columns \<open>Power_DC\<close> and \<open>Power_AC\<close>,
  \<open>calculate_power_factors\<close> returns the groups of the rows with \<open>WSD \<ge> 3\<close>,
  \<open>Power_DC > 0\<close>, \<open>Power_AC > 0\<close> and \<open>Power_DC / Power_AC < 1\<close>: one group for each
  value of \<open>floor(WSD)\<close> among these rows, in ascending order, with the mean of their
  ratios. Every mean it returns is below 1 (and positive), and no row with
  \<open>Power_DC \<le> 0\<close> or \<open>Power_AC \<le> 0\<close> is among the rows averaged.
\<close>

theorem calculate_power_factors_groups:
  "Power_DC (get_frame h r) = Some dc \<and> Power_AC (get_frame h r) = Some ac
     \<and> frame_ok (get_frame h r) \<and> rows = power_factor_rows (WSD (get_frame h r)) dc ac
   \<longrightarrow> (\<exists>groups.
          fst (pf_calculate_power_factors r h) = Inr groups
        \<and> map fst groups = sort (remdups (map (\<lambda>(w, d, a). real_of_int (floor w)) rows))
        \<and> (\<forall>(k, ms) \<in> set groups.
              \<exists>m. ms = [m]
                \<and> filter (\<lambda>(w, d, a). real_of_int (floor w) = k) rows \<noteq> []
                \<and> m = mean (map (\<lambda>(w, d, a). d / a)
                               (filter (\<lambda>(w, d, a). real_of_int (floor w) = k) rows))
                \<and> 0 < m \<and> m < 1)
        \<and> (\<forall>(w, d, a) \<in> set rows. w \<ge> 3 \<and> d > 0 \<and> a > 0 \<and> d / a < 1))"
proof (intro impI; elim conjE)
  assume dc: "Power_DC (get_frame h r) = Some dc" and ac: "Power_AC (get_frame h r) = Some ac"
    and ok: "frame_ok (get_frame h r)"
    and rows: "rows = power_factor_rows (WSD (get_frame h r)) dc ac"
  let ?groups = "groupby_mean (map (\<lambda>(w, d, a). real_of_int (floor w)) rows)
                   [map (\<lambda>(w, d, a). d / a) rows]"
  have p: "\<forall>(w, d, a) \<in> set rows. w \<ge> 3 \<and> d > 0 \<and> a > 0 \<and> d / a < 1"
    unfolding rows using power_factor_rows_props by blast
  then have p': "\<forall>(w, d, a) \<in> set rows. d > 0 \<and> a > 0 \<and> d / a < 1"
    by blast
  have g: "fst (pf_calculate_power_factors r h) = Inr ?groups"
    unfolding rows by (rule pf_calc_groups [OF dc ac ok])
  have k: "map fst ?groups = sort (remdups (map (\<lambda>(w, d, a). real_of_int (floor w)) rows))"
    by (rule groupby_mean_keys)
  have m: "\<forall>(k, ms) \<in> set ?groups.
              \<exists>m. ms = [m]
                \<and> filter (\<lambda>(w, d, a). real_of_int (floor w) = k) rows \<noteq> []
                \<and> m = mean (map (\<lambda>(w, d, a). d / a)
                               (filter (\<lambda>(w, d, a). real_of_int (floor w) = k) rows))
                \<and> 0 < m \<and> m < 1"
    using power_factor_group [OF _ p'] by blast
  from g k m p
  show "\<exists>groups.
          fst (pf_calculate_power_factors r h) = Inr groups
        \<and> map fst groups = sort (remdups (map (\<lambda>(w, d, a). real_of_int (floor w)) rows))
        \<and> (\<forall>(k, ms) \<in> set groups.
              \<exists>m. ms = [m]
                \<and> filter (\<lambda>(w, d, a). real_of_int (floor w) = k) rows \<noteq> []
                \<and> m = mean (map (\<lambda>(w, d, a). d / a)
                               (filter (\<lambda>(w, d, a). real_of_int (floor w) = k) rows))
                \<and> 0 < m \<and> m < 1)
        \<and> (\<forall>(w, d, a) \<in> set rows. w \<ge> 3 \<and> d > 0 \<and> a > 0 \<and> d / a < 1)"
    by blast
qed


theorem calculate_power_factors_groups_witness:
  "fst (pf_calculate_power_factors 0
          [(table [0, 0, 0] [0, 0, 0] [0, 0, 0] [0, 0, 0] [0, 0, 0] [0, 0, 0] [0, 0, 0] [0, 0, 0]
              [3.5, 4.2, 3.7] [TmTime (hms 10 0 0), TmTime (hms 10 0 1), TmTime (hms 10 0 2)]
              (Some [16, 16, 5]))
           \<lparr>Power_DC := Some [1, 2, 1 / 2], Power_AC := Some [2, 1, 1]\<rparr>])
     = Inr [(3, [1 / 2])]
   \<and> power_factor_rows [3.5, 4.2, 3.7] [1, 2, 1 / 2] [2, 1, 1] = [(3.5, 1, 2), (3.7, 1 / 2, 1)]"
proof -
  let ?f = "(table [0, 0, 0] [0, 0, 0] [0, 0, 0] [0, 0, 0] [0, 0, 0] [0, 0, 0] [0, 0, 0] [0, 0, 0]
              [3.5, 4.2, 3.7] [TmTime (hms 10 0 0), TmTime (hms 10 0 1), TmTime (hms 10 0 2)]
              (Some [16, 16, 5]))
           \<lparr>Power_DC := Some [1, 2, 1 / 2], Power_AC := Some [2, 1, 1]\<rparr>"
  let ?rows = "[(3.5, 1, 2), (3.7, 1 / 2, 1)] :: (real \<times> real \<times> real) list"
  have f: "get_frame [?f] 0 = ?f" by (simp add: get_frame_def)
  have c: "Power_DC ?f = Some [1, 2, 1 / 2]" "Power_AC ?f = Some [2, 1, 1]"
    "WSD ?f = [3.5, 4.2, 3.7]"
    by (simp_all add: table_def)
  have ok: "frame_ok ?f"
    by (simp add: frame_ok_def table_def nrows_def col_ok_def)
  have rows: "?rows = power_factor_rows [3.5, 4.2, 3.7] [1, 2, 1 / 2] [2, 1, 1]"
    by (simp add: power_factor_rows_def)
  have hyp: "Power_DC (get_frame [?f] 0) = Some [1, 2, 1 / 2]
      \<and> Power_AC (get_frame [?f] 0) = Some [2, 1, 1]
      \<and> frame_ok (get_frame [?f] 0)
      \<and> ?rows = power_factor_rows (WSD (get_frame [?f] 0)) [1, 2, 1 / 2] [2, 1, 1]"
    unfolding f c(3) by (intro conjI c(1) c(2) ok rows)
  from calculate_power_factors_groups [of "[?f]" 0 "[1, 2, 1 / 2]" "[2, 1, 1]" ?rows] hyp
  have "\<exists>groups.
          fst (pf_calculate_power_factors 0 [?f]) = Inr groups
        \<and> map fst groups = sort (remdups (map (\<lambda>(w, d, a). real_of_int (floor w)) ?rows))
        \<and> (\<forall>(k, ms) \<in> set groups.
              \<exists>m. ms = [m]
                \<and> filter (\<lambda>(w, d, a). real_of_int (floor w) = k) ?rows \<noteq> []
                \<and> m = mean (map (\<lambda>(w, d, a). d / a)
                               (filter (\<lambda>(w, d, a). real_of_int (floor w) = k) ?rows))
                \<and> 0 < m \<and> m < 1)
        \<and> (\<forall>(w, d, a) \<in> set ?rows. w \<ge> 3 \<and> d > 0 \<and> a > 0 \<and> d / a < 1)"
    by (rule mp)
  then obtain groups where g: "fst (pf_calculate_power_factors 0 [?f]) = Inr groups"
    and k: "map fst groups = sort (remdups (map (\<lambda>(w, d, a). real_of_int (floor w)) ?rows))"
    and m: "\<forall>(k, ms) \<in> set groups.
              \<exists>m. ms = [m]
                \<and> filter (\<lambda>(w, d, a). real_of_int (floor w) = k) ?rows \<noteq> []
                \<and> m = mean (map (\<lambda>(w, d, a). d / a)
                               (filter (\<lambda>(w, d, a). real_of_int (floor w) = k) ?rows))
                \<and> 0 < m \<and> m < 1"
    by (elim exE conjE)
  from k have "map fst groups = [3]" by simp
  then obtain ms where gs: "groups = [(3, ms)]" by (cases groups) auto
  with m have "ms = [1 / 2]" by (simp add: mean_def)
  with gs g rows show ?thesis by simp
qed


subsection \<open>Aggregation by wind speed\<close>

lemma wa_keys: "col_float_div_const (map rint (col_float_mul ws 10)) 10 = map round1 ws"
  by (simp add: col_float_div_const_def col_float_mul_def round1_def)


lemma sel_length:
  "length xs = length ys \<Longrightarrow> length (sel (map P xs) ys) = length (filter P xs)"
  by (induction xs ys rule: list_induct2) (simp_all add: sel_def)

lemma wa_ws_fst:
  assumes "Power_DC (get_frame h r) = Some dc" and "Power_AC (get_frame h r) = Some ac"
    and "Cp (get_frame h r) = Some cp" and "r < length h"
  shows "fst (wa_process_wind_speed_data r h)
           = Inr (groupby_mean (map round1 (WSD (get_frame h r))) [dc, ac, cp])"
  using assms
  by (simp add: wa_process_wind_speed_data_def Let_def wa_keys get_frame_def set_frame_def)


lemma groupby_mean_key_set: "set (map fst (groupby_mean ks cols)) = set ks"
  by (simp add: groupby_mean_keys)

lemma sample_frame_cols:
  "WSD sample_frame = [1, 1.03125, 2.5, 3.5]"
  "Power_DC sample_frame = Some [0.25, 0.5, 1, 2]"
  "Power_AC sample_frame = Some [0.125, 0.375, 0.75, 1.5]"
  "Cp sample_frame = Some [0.125, 0.375, 0.25, 0.5]"
  "frame_ok sample_frame"
  "get_frame [sample_frame] 0 = sample_frame"
  by (simp_all add: sample_frame_def table_def frame_ok_def nrows_def col_ok_def get_frame_def)

lemma round64_sample:
  "round64 10 = 10" "round64 (165 / 16) = 165 / 16" "round64 25 = 25" "round64 35 = 35"
  "round64 (5 / 2) = 5 / 2" "round64 (7 / 2) = 7 / 2"
  using round64_int [of 10] round64_exact [of "165 / 16" 165 "- 4"] round64_int [of 25]
    round64_int [of 35] round64_exact [of "5 / 2" 5 "- 1"] round64_exact [of "7 / 2" 7 "- 1"]
  by (simp_all add: powr_minus powr_numeral)

lemma rint_sample:
  "rint 10 = 10" "rint (165 / 16) = 10" "rint 25 = 25" "rint 35 = 35"
  by (simp_all add: rint_def Let_def)

lemma sample_round1:
  "round1 1 = 1" "round1 (33 / 32) = 1" "round1 (5 / 2) = 5 / 2" "round1 (7 / 2) = 7 / 2"
  by (simp_all add: round1_def round64_sample rint_sample round64_one)


subsection \<open>Aggregation by minute\<close>

lemma map_err_combine_time:
  "map_err (combine_time today) (map TmTime ts) = Inr (map (combine today) ts)"
  by (induction ts) simp_all

lemma map_err_combine_datetime:
  "map_err (combine_datetime today) (map TmDatetime ds)
     = Inr (map (\<lambda>d. combine today (dt_time d)) ds)"
  by (induction ds) simp_all

lemma wa_time_fst_time:
  assumes "TM (get_frame h r) = map TmTime ts" and "ts \<noteq> []"
    and "Power_DC (get_frame h r) = Some dc" and "Power_AC (get_frame h r) = Some ac"
    and "Cp (get_frame h r) = Some cp"
  shows "fst (wa_process_time_data today to_datetime r h)
     = Inr (groupby_mean (map (\<lambda>t. round_1min (combine today t)) ts)
              [dc, ac, WSD (get_frame h r), cp])"
proof -
  from assms(2) obtain t ts' where ts: "ts = t # ts'" by (cases ts) auto
  have m: "map_err (combine_time today) (TmTime t # map TmTime ts')
             = Inr (map (combine today) (t # ts'))"
    using map_err_combine_time [of today "t # ts'"] by simp
  from assms(1,3,4,5) show ?thesis
    unfolding ts
    by (simp add: wa_process_time_data_def Let_def new_frame_def get_frame_def set_frame_def
        nth_append list_update_append m comp_def del: map_err.simps)
qed

lemma wa_time_fst_datetime:
  assumes "TM (get_frame h r) = map TmDatetime ds" and "ds \<noteq> []"
    and "Power_DC (get_frame h r) = Some dc" and "Power_AC (get_frame h r) = Some ac"
    and "Cp (get_frame h r) = Some cp"
  shows "fst (wa_process_time_data today to_datetime r h)
     = Inr (groupby_mean (map (\<lambda>d. round_1min (combine today (dt_time d))) ds)
              [dc, ac, WSD (get_frame h r), cp])"
proof -
  from assms(2) obtain d ds' where ds: "ds = d # ds'" by (cases ds) auto
  have m: "map_err (combine_datetime today) (TmDatetime d # map TmDatetime ds')
             = Inr (map (\<lambda>d. combine today (dt_time d)) (d # ds'))"
    using map_err_combine_datetime [of today "d # ds'"] by simp
  from assms(1,3,4,5) show ?thesis
    unfolding ds
    by (simp add: wa_process_time_data_def Let_def new_frame_def get_frame_def set_frame_def
        nth_append list_update_append m comp_def del: map_err.simps)
qed

lemma round_1min_multiple: "round_1min v mod usec_per_minute = 0"
  by (simp add: round_1min_def Let_def usec_per_minute_def)

lemma round_1min_nearest: "\<bar>round_1min v - v\<bar> \<le> 30000000"
proof -
  define q where "q = v div 60000000"
  define m where "m = v mod 60000000"
  have v: "v = q * 60000000 + m" and m: "0 \<le> m" "m < 60000000"
    by (simp_all add: q_def m_def)
  show ?thesis
    unfolding round_1min_def Let_def usec_per_minute_def q_def [symmetric] m_def [symmetric]
    using v m by (auto simp: algebra_simps)
qed

lemma round_1min_tie:
  assumes "v mod usec_per_minute = 30000000"
  shows "even (round_1min v div usec_per_minute)"
  using assms by (auto simp: round_1min_def Let_def usec_per_minute_def)

lemma round_1min_shift: "round_1min (v + d * usec_per_day) = round_1min v + d * usec_per_day"
proof -
  have e: "v + d * 86400000000 = v + (d * 1440) * 60000000" by simp
  have q: "(v + d * 86400000000) div 60000000 = v div 60000000 + d * 1440"
  proof -
    have "(v + (d * 1440) * 60000000) div 60000000 = d * 1440 + v div 60000000"
      by (rule div_mult_self1) simp
    then show ?thesis unfolding e by (simp only: add.commute)
  qed
  have m: "(v + d * 86400000000) mod 60000000 = v mod 60000000"
    unfolding e by (rule mod_mult_self1)
  show ?thesis
    unfolding round_1min_def Let_def usec_per_minute_def usec_per_day_def q m
    by (simp add: algebra_simps)
qed

lemma round_1min_combine:
  "round_1min (combine today t) = today * usec_per_day + round_1min (usec_of_time t)"
  using round_1min_shift [of "usec_of_time t" today] by (simp add: combine_def add.commute)

lemma strict_sorted_keys: "sorted_wrt (<) (sort (remdups (ks :: 'a :: linorder list)))"
  by (simp add: strict_sorted_iff)


lemma round_1min_examples:
  "round_1min (combine today (hms 10 0 29)) = combine today (hms 10 0 0)"
  "round_1min (combine today (hms 10 0 31)) = combine today (hms 10 1 0)"
  "round_1min (combine today \<lparr> tm_hour = 10, tm_min = 0, tm_sec = 30, tm_usec = 400000 \<rparr>)
     = combine today (hms 10 1 0)"
  "round_1min (combine today (hms 10 0 30)) = combine today (hms 10 0 0)"
  "round_1min (combine today (hms 10 1 30)) = combine today (hms 10 2 0)"
  "combine today (hms 10 0 0) \<noteq> combine today (hms 10 1 0)"
  unfolding round_1min_combine
  by (simp_all add: combine_def usec_of_time_def hms_def round_1min_def Let_def
      usec_per_minute_def)

lemma time_groups:
  assumes ok: "frame_ok (get_frame h r)"
    and dc: "Power_DC (get_frame h r) = Some dc" and ac: "Power_AC (get_frame h r) = Some ac"
    and cp: "Cp (get_frame h r) = Some cp" and len: "length ks = nrows (get_frame h r)"
    and g: "fst (wa_process_time_data today to_datetime r h)
              = Inr (groupby_mean ks [dc, ac, WSD (get_frame h r), cp])"
  shows "\<exists>groups.
           fst (wa_process_time_data today to_datetime r h) = Inr groups
         \<and> map fst groups = sort (remdups ks) \<and> sorted_wrt (<) (map fst groups)
         \<and> (\<forall>(k, ms) \<in> set groups.
               ms = [mean (group_vals ks dc k), mean (group_vals ks ac k),
                     mean (group_vals ks (WSD (get_frame h r)) k), mean (group_vals ks cp k)]
               \<and> group_vals ks dc k \<noteq> [] \<and> group_vals ks ac k \<noteq> []
               \<and> group_vals ks (WSD (get_frame h r)) k \<noteq> [] \<and> group_vals ks cp k \<noteq> [])"
proof -
  let ?ws = "WSD (get_frame h r)"
  let ?groups = "groupby_mean ks [dc, ac, ?ws, cp]"
  from ok dc ac cp len have l: "length dc = length ks" "length ac = length ks"
    "length ?ws = length ks" "length cp = length ks"
    by (simp_all add: frame_ok_def Let_def col_ok_def nrows_def)
  have k: "map fst ?groups = sort (remdups ks)"
    by (rule groupby_mean_keys)
  then have s: "sorted_wrt (<) (map fst ?groups)"
    by (simp only: strict_sorted_keys)
  have e: "\<forall>(k, ms) \<in> set ?groups.
               ms = [mean (group_vals ks dc k), mean (group_vals ks ac k),
                     mean (group_vals ks ?ws k), mean (group_vals ks cp k)]
               \<and> group_vals ks dc k \<noteq> [] \<and> group_vals ks ac k \<noteq> []
               \<and> group_vals ks ?ws k \<noteq> [] \<and> group_vals ks cp k \<noteq> []"
  proof (intro ballI, clarify)
    fix k ms assume m: "(k, ms) \<in> set ?groups"
    from groupby_mean_entry [OF m] have kin: "k \<in> set ks"
      and ms: "ms = [mean (group_vals ks dc k), mean (group_vals ks ac k),
                     mean (group_vals ks ?ws k), mean (group_vals ks cp k)]"
      by simp_all
    from l kin have "group_vals ks dc k \<noteq> []" "group_vals ks ac k \<noteq> []"
      "group_vals ks ?ws k \<noteq> []" "group_vals ks cp k \<noteq> []"
      by (simp_all add: group_vals_nonempty)
    with ms show "ms = [mean (group_vals ks dc k), mean (group_vals ks ac k),
                     mean (group_vals ks ?ws k), mean (group_vals ks cp k)]
               \<and> group_vals ks dc k \<noteq> [] \<and> group_vals ks ac k \<noteq> []
               \<and> group_vals ks ?ws k \<noteq> [] \<and> group_vals ks cp k \<noteq> []"
      by blast
  qed
  from g k s e show ?thesis by blast
qed

text \<open>
  Claim C4, as the code has it. \<open>process_time_data\<close> rounds the time of every sample,
  set on the day of the call, to the nearest minute: the result is a whole minute at most
  thirty seconds away, and a time exactly thirty seconds after a minute goes to the even
  one of its two neighbours (10:00:30 to 10:00, 10:01:30 to 10:02). So 10:00:29 and
  10:00:31 fall into different minutes, and so do 10:00:29 and 10:00:30.4. On a frame
  whose times are all times of day, or all datetimes, the function returns one group for
  each rounded minute, in strictly ascending order, with the means of \<open>Power_DC\<close>,
  \<open>Power_AC\<close>, \<open>WSD\<close> and \<open>Cp\<close> over the samples of that minute.
\<close>

theorem process_time_data_groups:
  "(frame_ok (get_frame h r) \<and> TM (get_frame h r) = map TmTime ts \<and> ts \<noteq> []
      \<and> Power_DC (get_frame h r) = Some dc \<and> Power_AC (get_frame h r) = Some ac
      \<and> Cp (get_frame h r) = Some cp \<and> ks = map (\<lambda>t. round_1min (combine today t)) ts
    \<longrightarrow> (\<exists>groups.
           fst (wa_process_time_data today to_datetime r h) = Inr groups
         \<and> map fst groups = sort (remdups ks) \<and> sorted_wrt (<) (map fst groups)
         \<and> (\<forall>(k, ms) \<in> set groups.
               ms = [mean (group_vals ks dc k), mean (group_vals ks ac k),
                     mean (group_vals ks (WSD (get_frame h r)) k), mean (group_vals ks cp k)]
               \<and> group_vals ks dc k \<noteq> [] \<and> group_vals ks ac k \<noteq> []
               \<and> group_vals ks (WSD (get_frame h r)) k \<noteq> [] \<and> group_vals ks cp k \<noteq> [])))
   \<and> (frame_ok (get_frame h r) \<and> TM (get_frame h r) = map TmDatetime ds \<and> ds \<noteq> []
      \<and> Power_DC (get_frame h r) = Some dc \<and> Power_AC (get_frame h r) = Some ac
      \<and> Cp (get_frame h r) = Some cp
      \<and> ks = map (\<lambda>d. round_1min (combine today (dt_time d))) ds
    \<longrightarrow> (\<exists>groups.
           fst (wa_process_time_data today to_datetime r h) = Inr groups
         \<and> map fst groups = sort (remdups ks) \<and> sorted_wrt (<) (map fst groups)
         \<and> (\<forall>(k, ms) \<in> set groups.
               ms = [mean (group_vals ks dc k), mean (group_vals ks ac k),
                     mean (group_vals ks (WSD (get_frame h r)) k), mean (group_vals ks cp k)]
               \<and> group_vals ks dc k \<noteq> [] \<and> group_vals ks ac k \<noteq> []
               \<and> group_vals ks (WSD (get_frame h r)) k \<noteq> [] \<and> group_vals ks cp k \<noteq> [])))
   \<and> round_1min v mod usec_per_minute = 0 \<and> \<bar>round_1min v - v\<bar> \<le> 30000000
   \<and> (v mod usec_per_minute = 30000000 \<longrightarrow> even (round_1min v div usec_per_minute))
   \<and> round_1min (combine today (hms 10 0 29)) = combine today (hms 10 0 0)
   \<and> round_1min (combine today (hms 10 0 31)) = combine today (hms 10 1 0)
   \<and> round_1min (combine today \<lparr> tm_hour = 10, tm_min = 0, tm_sec = 30, tm_usec = 400000 \<rparr>)
       = combine today (hms 10 1 0)
   \<and> round_1min (combine today (hms 10 0 30)) = combine today (hms 10 0 0)
   \<and> round_1min (combine today (hms 10 1 30)) = combine today (hms 10 2 0)
   \<and> combine today (hms 10 0 0) \<noteq> combine today (hms 10 1 0)"
proof (intro conjI impI; (elim conjE)?)
  assume ok: "frame_ok (get_frame h r)" and tm: "TM (get_frame h r) = map TmTime ts"
    and ne: "ts \<noteq> []" and dc: "Power_DC (get_frame h r) = Some dc"
    and ac: "Power_AC (get_frame h r) = Some ac" and cp: "Cp (get_frame h r) = Some cp"
    and ks: "ks = map (\<lambda>t. round_1min (combine today t)) ts"
  from ok tm have "length ks = nrows (get_frame h r)"
    unfolding ks by (simp add: frame_ok_def Let_def)
  moreover have "fst (wa_process_time_data today to_datetime r h)
              = Inr (groupby_mean ks [dc, ac, WSD (get_frame h r), cp])"
    unfolding ks by (rule wa_time_fst_time [OF tm ne dc ac cp])
  ultimately show "\<exists>groups.
           fst (wa_process_time_data today to_datetime r h) = Inr groups
         \<and> map fst groups = sort (remdups ks) \<and> sorted_wrt (<) (map fst groups)
         \<and> (\<forall>(k, ms) \<in> set groups.
               ms = [mean (group_vals ks dc k), mean (group_vals ks ac k),
                     mean (group_vals ks (WSD (get_frame h r)) k), mean (group_vals ks cp k)]
               \<and> group_vals ks dc k \<noteq> [] \<and> group_vals ks ac k \<noteq> []
               \<and> group_vals ks (WSD (get_frame h r)) k \<noteq> [] \<and> group_vals ks cp k \<noteq> [])"
    by (rule time_groups [OF ok dc ac cp])
next
  assume ok: "frame_ok (get_frame h r)" and tm: "TM (get_frame h r) = map TmDatetime ds"
    and ne: "ds \<noteq> []" and dc: "Power_DC (get_frame h r) = Some dc"
    and ac: "Power_AC (get_frame h r) = Some ac" and cp: "Cp (get_frame h r) = Some cp"
    and ks: "ks = map (\<lambda>d. round_1min (combine today (dt_time d))) ds"
  from ok tm have "length ks = nrows (get_frame h r)"
    unfolding ks by (simp add: frame_ok_def Let_def)
  moreover have "fst (wa_process_time_data today to_datetime r h)
              = Inr (groupby_mean ks [dc, ac, WSD (get_frame h r), cp])"
    unfolding ks by (rule wa_time_fst_datetime [OF tm ne dc ac cp])
  ultimately show "\<exists>groups.
           fst (wa_process_time_data today to_datetime r h) = Inr groups
         \<and> map fst groups = sort (remdups ks) \<and> sorted_wrt (<) (map fst groups)
         \<and> (\<forall>(k, ms) \<in> set groups.
               ms = [mean (group_vals ks dc k), mean (group_vals ks ac k),
                     mean (group_vals ks (WSD (get_frame h r)) k), mean (group_vals ks cp k)]
               \<and> group_vals ks dc k \<noteq> [] \<and> group_vals ks ac k \<noteq> []
               \<and> group_vals ks (WSD (get_frame h r)) k \<noteq> [] \<and> group_vals ks cp k \<noteq> [])"
    by (rule time_groups [OF ok dc ac cp])
next
  assume "v mod usec_per_minute = 30000000"
  then show "even (round_1min v div usec_per_minute)" by (rule round_1min_tie)
qed (simp_all only: round_1min_multiple round_1min_nearest round_1min_examples
    not_False_eq_True)

lemma time_frame_cols:
  "TM time_frame = map TmTime [hms 10 0 29,
       \<lparr> tm_hour = 10, tm_min = 0, tm_sec = 30, tm_usec = 400000 \<rparr>, hms 10 0 30]"
  "WSD time_frame = [4, 5, 6]"
  "Power_DC time_frame = Some [1, 2, 3]"
  "Power_AC time_frame = Some [2, 3, 4]"
  "Cp time_frame = Some [0.1, 0.2, 0.3]"
  "frame_ok time_frame"
  "get_frame [time_frame] 0 = time_frame"
  by (simp_all add: time_frame_def table_def frame_ok_def nrows_def col_ok_def get_frame_def)

text \<open>The aggregation on the three samples: 10:00:29 and 10:00:30 are in the group of
  10:00, and 10:00:30.4 is alone in the group of 10:01.\<close>

theorem process_time_data_half_minute:
  "fst (wa_process_time_data 0 failing_to_datetime 0 [time_frame])
     = Inr [(combine 0 (hms 10 0 0), [2, 3, 5, 0.2]), (combine 0 (hms 10 1 0), [2, 3, 5, 0.2])]"
proof -
  have "fst (wa_process_time_data 0 failing_to_datetime 0 [time_frame])
     = Inr (groupby_mean
         (map (\<lambda>t. round_1min (combine 0 t))
            [hms 10 0 29, \<lparr> tm_hour = 10, tm_min = 0, tm_sec = 30, tm_usec = 400000 \<rparr>,
             hms 10 0 30])
         [[1, 2, 3], [2, 3, 4], [4, 5, 6], [0.1, 0.2, 0.3]])"
    by (rule wa_time_fst_time [of "[time_frame]" 0 _ "[1, 2, 3]" "[2, 3, 4]"
          "[0.1, 0.2, 0.3]" 0 failing_to_datetime, unfolded time_frame_cols(7)
          time_frame_cols(2)])
      (simp_all only: time_frame_cols list.simps not_False_eq_True)
  also have "\<dots> = Inr [(combine 0 (hms 10 0 0), [2, 3, 5, 0.2]),
                      (combine 0 (hms 10 1 0), [2, 3, 5, 0.2])]"
    by (simp add: round_1min_examples groupby_mean_def group_vals_def mean_def)
      (simp add: combine_def usec_of_time_def hms_def usec_per_day_def)
  finally show ?thesis .
qed

theorem process_time_data_groups_witness:
  "\<exists>groups.
     fst (wa_process_time_data 0 failing_to_datetime 0 [time_frame]) = Inr groups
     \<and> map fst groups = [combine 0 (hms 10 0 0), combine 0 (hms 10 1 0)]
     \<and> sorted_wrt (<) (map fst groups)
     \<and> even (round_1min (combine 0 (hms 10 0 30)) div usec_per_minute)"
proof -
  let ?ks = "[combine 0 (hms 10 0 0), combine 0 (hms 10 1 0), combine 0 (hms 10 0 0)]"
  note th = process_time_data_groups [of "[time_frame]" 0
      "[hms 10 0 29, \<lparr> tm_hour = 10, tm_min = 0, tm_sec = 30, tm_usec = 400000 \<rparr>, hms 10 0 30]"
      "[1, 2, 3]" "[2, 3, 4]" "[0.1, 0.2, 0.3]" ?ks 0 failing_to_datetime "[]"
      "combine 0 (hms 10 0 30)"]
  have h: "frame_ok (get_frame [time_frame] 0)
      \<and> TM (get_frame [time_frame] 0)
          = map TmTime [hms 10 0 29,
              \<lparr> tm_hour = 10, tm_min = 0, tm_sec = 30, tm_usec = 400000 \<rparr>, hms 10 0 30]
      \<and> [hms 10 0 29, \<lparr> tm_hour = 10, tm_min = 0, tm_sec = 30, tm_usec = 400000 \<rparr>,
          hms 10 0 30] \<noteq> []
      \<and> Power_DC (get_frame [time_frame] 0) = Some [1, 2, 3]
      \<and> Power_AC (get_frame [time_frame] 0) = Some [2, 3, 4]
      \<and> Cp (get_frame [time_frame] 0) = Some [0.1, 0.2, 0.3]
      \<and> ?ks = map (\<lambda>t. round_1min (combine 0 t))
            [hms 10 0 29, \<lparr> tm_hour = 10, tm_min = 0, tm_sec = 30, tm_usec = 400000 \<rparr>,
             hms 10 0 30]"
    by (simp add: time_frame_cols round_1min_examples)
  have s: "sort (remdups ?ks) = [combine 0 (hms 10 0 0), combine 0 (hms 10 1 0)]"
    by (simp add: combine_def usec_of_time_def hms_def usec_per_day_def)
  have t: "combine 0 (hms 10 0 30) mod usec_per_minute = 30000000"
    by (simp add: combine_def usec_of_time_def hms_def usec_per_day_def usec_per_minute_def)
  from th [THEN conjunct1, THEN mp, OF h]
  obtain groups where
    g: "fst (wa_process_time_data 0 failing_to_datetime 0 [time_frame]) = Inr groups"
    "map fst groups = sort (remdups ?ks)" "sorted_wrt (<) (map fst groups)"
    by (elim exE conjE)
  have e: "even (round_1min (combine 0 (hms 10 0 30)) div usec_per_minute)"
    by (rule th [THEN conjunct2, THEN conjunct2, THEN conjunct2, THEN conjunct2,
          THEN conjunct1, THEN mp, OF t])
  from g e show ?thesis unfolding s by (intro exI [of _ groups] conjI)
qed

subsection \<open>What the functions leave in the store\<close>

lemma wa_time_store: "\<exists>fs. snd (wa_process_time_data today to_datetime r h) = h @ fs"
  by (auto simp: wa_process_time_data_def Let_def new_frame_def get_frame_def set_frame_def
      list_update_append split: list.splits sum.splits option.splits prod.splits)

lemma pf_ws_store: "\<exists>fs. snd (pf_process_wind_speed_data r h) = h @ fs"
  by (auto simp: pf_process_wind_speed_data_def Let_def new_frame_def get_frame_def
      set_frame_def list_update_append split: prod.splits)

lemma pf_calc_store: "\<exists>fs. snd (pf_calculate_power_factors r h) = h @ fs"
proof (cases "Power_DC (get_frame h r)")
  case None
  then show ?thesis by (simp add: pf_calculate_power_factors_def Let_def)
next
  case (Some dc)
  show ?thesis
  proof (cases "Power_AC (get_frame h r)")
    case None
    with Some show ?thesis by (simp add: pf_calculate_power_factors_def Let_def)
  next
    case (Some ac)
    with \<open>Power_DC (get_frame h r) = Some dc\<close> show ?thesis
      by (simp add: pf_calculate_power_factors_def Let_def new_frame_def get_frame_def
          set_frame_def list_update_append nth_append)
  qed
qed

lemma wa_analysis_store: "snd (wa_error_analysis r h) = h"
  by (simp add: wa_error_analysis_def Let_def)

lemma wa_ws_store:
  "snd (wa_process_wind_speed_data r h)
     = set_frame r ((get_frame h r)\<lparr>WSD_rounded := Some (map round1 (WSD (get_frame h r)))\<rparr>) h"
  by (simp add: wa_process_wind_speed_data_def Let_def wa_keys)

lemma pf_analysis_store:
  "snd (pf_error_analysis r h)
     = (case CODE_1 (get_frame h r) of
          None \<Rightarrow> h
        | Some codes \<Rightarrow>
            set_frame r ((get_frame h r)\<lparr>Error_Name := Some (map (map_of error_codes) codes)\<rparr>) h)"
  by (simp add: pf_error_analysis_def Let_def split: option.splits)

lemma get_set_frame:
  "r < length h \<Longrightarrow> get_frame (set_frame r df h) r = df"
  "r' \<noteq> r \<Longrightarrow> get_frame (set_frame r df h) r' = get_frame h r'"
  by (simp_all add: get_frame_def set_frame_def)

lemma get_append_frame: "r < length h \<Longrightarrow> get_frame (h @ fs) r = get_frame h r"
  by (simp add: get_frame_def nth_append)


text \<open>
  The frames after a call. \<open>process_time_data\<close>, \<open>calculate_power_factors\<close> and
  \<open>process_wind_speed_data\<close> of \<^verbatim>\<open>power_power_factor.py\<close> work on frames of their own:
  every frame that existed before the call is the same after it; \<open>error_analysis\<close> of
  \<^verbatim>\<open>wind_analysis.py\<close> leaves the store as it was. \<open>process_wind_speed_data\<close> of
  \<^verbatim>\<open>wind_analysis.py\<close> assigns the column \<open>WSD_rounded\<close> on the frame of the caller, and
  \<open>error_analysis\<close> of \<^verbatim>\<open>power_power_factor.py\<close> assigns the column \<open>Error Name\<close> on it
  (when the frame has a status column; otherwise it raises and changes nothing).
\<close>

lemma frames_after_call:
  "(r < length h
      \<longrightarrow> get_frame (snd (wa_process_time_data today to_datetime r' h)) r = get_frame h r
        \<and> get_frame (snd (pf_calculate_power_factors r' h)) r = get_frame h r
        \<and> get_frame (snd (pf_process_wind_speed_data r' h)) r = get_frame h r)
   \<and> snd (wa_error_analysis r' h) = h
   \<and> (r < length h
      \<longrightarrow> get_frame (snd (wa_process_wind_speed_data r h)) r
          = (get_frame h r)\<lparr>WSD_rounded := Some (map round1 (WSD (get_frame h r)))\<rparr>)
   \<and> (r'' \<noteq> r \<longrightarrow> get_frame (snd (wa_process_wind_speed_data r h)) r'' = get_frame h r'')
   \<and> (r < length h \<and> CODE_1 (get_frame h r) = Some codes
      \<longrightarrow> get_frame (snd (pf_error_analysis r h)) r
          = (get_frame h r)\<lparr>Error_Name := Some (map (map_of error_codes) codes)\<rparr>)
   \<and> (CODE_1 (get_frame h r) = None \<longrightarrow> snd (pf_error_analysis r h) = h)
   \<and> (r'' \<noteq> r \<longrightarrow> get_frame (snd (pf_error_analysis r h)) r'' = get_frame h r'')"
proof (intro conjI impI; (elim conjE)?)
  assume r: "r < length h"
  from wa_time_store obtain fs where
    "snd (wa_process_time_data today to_datetime r' h) = h @ fs" by blast
  with r show "get_frame (snd (wa_process_time_data today to_datetime r' h)) r = get_frame h r"
    by (simp add: get_append_frame)
next
  assume r: "r < length h"
  from pf_calc_store obtain fs where "snd (pf_calculate_power_factors r' h) = h @ fs" by blast
  with r show "get_frame (snd (pf_calculate_power_factors r' h)) r = get_frame h r"
    by (simp add: get_append_frame)
next
  assume r: "r < length h"
  from pf_ws_store obtain fs where "snd (pf_process_wind_speed_data r' h) = h @ fs" by blast
  with r show "get_frame (snd (pf_process_wind_speed_data r' h)) r = get_frame h r"
    by (simp add: get_append_frame)
next
  show "snd (wa_error_analysis r' h) = h" by (rule wa_analysis_store)
next
  assume "r < length h"
  then show "get_frame (snd (wa_process_wind_speed_data r h)) r
          = (get_frame h r)\<lparr>WSD_rounded := Some (map round1 (WSD (get_frame h r)))\<rparr>"
    by (simp add: wa_ws_store get_set_frame)
next
  assume "r'' \<noteq> r"
  then show "get_frame (snd (wa_process_wind_speed_data r h)) r'' = get_frame h r''"
    by (simp add: wa_ws_store get_set_frame)
next
  assume "r < length h" and "CODE_1 (get_frame h r) = Some codes"
  then show "get_frame (snd (pf_error_analysis r h)) r
          = (get_frame h r)\<lparr>Error_Name := Some (map (map_of error_codes) codes)\<rparr>"
    by (simp add: pf_analysis_store get_set_frame)
next
  assume "CODE_1 (get_frame h r) = None"
  then show "snd (pf_error_analysis r h) = h"
    by (simp add: pf_analysis_store)
next
  assume "r'' \<noteq> r"
  then show "get_frame (snd (pf_error_analysis r h)) r'' = get_frame h r''"
    by (simp add: pf_analysis_store get_set_frame split: option.splits)
qed

lemma sample_frame_codes:
  "CODE_1 sample_frame = Some [16, 16, 5, 16]" "WSD_rounded sample_frame = None"
  "Error_Name sample_frame = None"
  by (simp_all add: sample_frame_def table_def)

text \<open>
  Claim C9, against \<open>process_wind_speed_data\<close> of \<^verbatim>\<open>wind_analysis.py\<close> and
  \<open>error_analysis\<close> of \<^verbatim>\<open>power_power_factor.py\<close>. The caller holds one frame,
  \<open>sample_frame\<close>, which has neither the column \<open>WSD_rounded\<close> nor the column
  \<open>Error Name\<close>. After the call of the first function the frame of the caller has the
  column \<open>WSD_rounded\<close>; after the call of the second it has the column \<open>Error Name\<close>.
\<close>

theorem caller_frame_gets_column:
  "WSD_rounded (get_frame [sample_frame] 0) = None
   \<and> WSD_rounded (get_frame (snd (wa_process_wind_speed_data 0 [sample_frame])) 0)
       = Some [1, 1, 2.5, 3.5]
   \<and> Error_Name (get_frame [sample_frame] 0) = None
   \<and> Error_Name (get_frame (snd (pf_error_analysis 0 [sample_frame])) 0)
       = Some [Some ''System generating power normally'',
               Some ''System generating power normally'',
               Some ''Overcurrent during motor operation'',
               Some ''System generating power normally'']"
  by (simp add: wa_ws_store pf_analysis_store get_set_frame sample_frame_cols
      sample_frame_codes sample_round1 sample_names)

subsection \<open>The pipeline and the day of the run\<close>

lemma remdups_map_add: "remdups (map (\<lambda>k. k + c) ks) = map (\<lambda>k. k + c) (remdups (ks :: int list))"
  by (induction ks) auto

lemma insort_map_add:
  "insort (x + c) (map (\<lambda>k. k + c) ks) = map (\<lambda>k. k + c) (insort x (ks :: int list))"
  by (induction ks) auto

lemma sort_map_add: "sort (map (\<lambda>k. k + c) ks) = map (\<lambda>k. k + c) (sort (ks :: int list))"
  by (induction ks) (simp_all add: insort_map_add)

lemma group_vals_map_add:
  "group_vals (map (\<lambda>k. k + c) ks) vs (k + c) = group_vals (ks :: int list) vs k"
proof -
  have "filter (\<lambda>kv. fst kv = k + c) (zip (map (\<lambda>k. k + c) ks) vs)
          = map (\<lambda>(k, v). (k + c, v)) (filter (\<lambda>kv. fst kv = k) (zip ks vs))"
    by (induction ks arbitrary: vs) (auto simp: zip_Cons1 split: list.splits)
  then show ?thesis
    by (simp add: group_vals_def comp_def case_prod_unfold)
qed

lemma groupby_mean_shift:
  "groupby_mean (map (\<lambda>k. k + c * usec_per_day) ks) cols = shift_days c (groupby_mean ks cols)"
  by (simp add: groupby_mean_def shift_days_def remdups_map_add sort_map_add comp_def
      group_vals_map_add)

lemma combine_shift: "combine d2 t = combine d1 t + (d2 - d1) * usec_per_day"
  by (simp add: combine_def algebra_simps)

lemma map_err_combine_time_shift:
  "map_err (combine_time d2) xs
     = map_sum id (map (\<lambda>k. k + (d2 - d1) * usec_per_day)) (map_err (combine_time d1) xs)"
proof (induction xs)
  case Nil
  then show ?case by simp
next
  case (Cons x xs)
  show ?case
  proof (cases x)
    case (TmTime t)
    with Cons combine_shift [of d2 t d1] show ?thesis
      by (cases "map_err (combine_time d1) xs") simp_all
  qed simp_all
qed

lemma map_err_combine_datetime_shift:
  "map_err (combine_datetime d2) xs
     = map_sum id (map (\<lambda>k. k + (d2 - d1) * usec_per_day)) (map_err (combine_datetime d1) xs)"
proof (induction xs)
  case Nil
  then show ?case by simp
next
  case (Cons x xs)
  show ?case
  proof (cases x)
    case (TmDatetime d)
    with Cons combine_shift [of d2 "dt_time d" d1] show ?thesis
      by (cases "map_err (combine_datetime d1) xs") simp_all
  qed simp_all
qed

lemma map_round_shift:
  "map round_1min (map (\<lambda>k. k + c * usec_per_day) ms)
     = map (\<lambda>k. k + c * usec_per_day) (map round_1min ms)"
  by (simp add: round_1min_shift)


lemma groupby_round_shift:
  "groupby_mean (map (round_1min \<circ> (\<lambda>k. k + c * usec_per_day)) ms) cols
     = shift_days c (groupby_mean (map round_1min ms) cols)"
proof -
  have "map (round_1min \<circ> (\<lambda>k. k + c * usec_per_day)) ms
          = map (\<lambda>k. k + c * usec_per_day) (map round_1min ms)"
    by (simp add: round_1min_shift)
  then show ?thesis by (simp only: groupby_mean_shift)
qed

lemma time_data_after_conversion:
  "fst (wa_process_time_data today to_datetime r h)
     = (case TM (get_frame h r) of
          [] \<Rightarrow> Inl (Exception IndexError)
        | c # cs \<Rightarrow>
            (case (if is_time c then map_err (combine_time today) (TM (get_frame h r))
                   else if is_datetime c
                     then map_err (combine_datetime today) (TM (get_frame h r))
                   else to_datetime (TM (get_frame h r))) of
               Inl e \<Rightarrow> Inl (Exception e)
             | Inr ms \<Rightarrow>
                 (case (Power_DC (get_frame h r), Power_AC (get_frame h r), Cp (get_frame h r)) of
                    (Some dc, Some ac, Some cp) \<Rightarrow>
                      Inr (groupby_mean (map round_1min ms) [dc, ac, WSD (get_frame h r), cp])
                  | _ \<Rightarrow> Inl (Exception KeyError))))"
  by (simp add: wa_process_time_data_def Let_def new_frame_def get_frame_def set_frame_def
      nth_append list_update_append split: list.splits sum.splits option.splits)

lemma conversion_shift:
  assumes "\<not> is_str c"
  shows "(if is_time c then map_err (combine_time d2) xs
          else if is_datetime c then map_err (combine_datetime d2) xs
          else to_datetime xs)
       = map_sum id (map (\<lambda>k. k + (d2 - d1) * usec_per_day))
           (if is_time c then map_err (combine_time d1) xs
            else if is_datetime c then map_err (combine_datetime d1) xs
            else to_datetime xs)"
  using assms map_err_combine_time_shift [of d2 xs d1]
    map_err_combine_datetime_shift [of d2 xs d1]
  by (cases c) simp_all

lemma wa_time_shift:
  assumes "case TM (get_frame h r) of [] \<Rightarrow> True | c # cs \<Rightarrow> \<not> is_str c"
  shows "fst (wa_process_time_data d2 to_datetime r h)
           = map_sum id (shift_days (d2 - d1)) (fst (wa_process_time_data d1 to_datetime r h))"
proof (cases "TM (get_frame h r)")
  case Nil
  then show ?thesis by (simp add: time_data_after_conversion)
next
  case (Cons c cs)
  with assms have c: "\<not> is_str c" by simp
  let ?conv = "\<lambda>d. if is_time c then map_err (combine_time d) (TM (get_frame h r))
          else if is_datetime c then map_err (combine_datetime d) (TM (get_frame h r))
          else to_datetime (TM (get_frame h r))"
  have s: "?conv d2 = map_sum id (map (\<lambda>k. k + (d2 - d1) * usec_per_day)) (?conv d1)"
    by (rule conversion_shift [OF c])
  show ?thesis
  proof (cases "?conv d1")
    case (Inl e)
    with s have "?conv d2 = Inl e" by simp
    with Inl Cons show ?thesis
      by (simp add: time_data_after_conversion del: map_err.simps)
  next
    case (Inr ms)
    with s have "?conv d2 = Inr (map (\<lambda>k. k + (d2 - d1) * usec_per_day) ms)" by simp
    with Inr Cons show ?thesis
      by (simp add: time_data_after_conversion groupby_round_shift
          del: map_err.simps split: option.splits)
  qed
qed


lemma to_time_col_times: "to_time_col strptime xs = Inr ts \<Longrightarrow> \<forall>x \<in> set ts. is_time x"
proof (induction xs arbitrary: ts)
  case Nil
  then show ?case by simp
next
  case (Cons x xs)
  then show ?case by (auto split: sum.splits)
qed

lemma convert_TM_first:
  assumes "convert_TM strptime df = Inr df'"
  shows "case TM df' of [] \<Rightarrow> True | c # cs \<Rightarrow> \<not> is_str c"
proof (cases "TM df")
  case Nil
  with assms show ?thesis by (simp add: convert_TM_def)
next
  case (Cons c cs)
  show ?thesis
  proof (cases "is_str c")
    case False
    with Cons assms show ?thesis by (auto simp: convert_TM_def)
  next
    case True
    with Cons assms obtain ts where ts: "to_time_col strptime (TM df) = Inr ts" "TM df' = ts"
      by (auto simp: convert_TM_def split: sum.splits)
    from to_time_col_times [OF ts(1)] have "\<forall>x \<in> set ts. \<not> is_str x"
      by (metis is_str.simps(2) is_time.elims(2))
    with ts(2) show ?thesis by (cases ts) simp_all
  qed
qed

lemma wa_read_first:
  assumes "wa_read_and_process_data strptime tbl rho d h = Inr df"
  shows "case TM df of [] \<Rightarrow> True | c # cs \<Rightarrow> \<not> is_str c"
  using convert_TM_first [OF assms [unfolded wa_read_and_process_data_def Let_def]] .

lemma wa_main_steps:
  "wa_main today to_datetime strptime tbl rho d h =
     (case wa_read_and_process_data strptime tbl rho d h of
        Inl e \<Rightarrow> Inl e
      | Inr df0 \<Rightarrow>
          (case fst (wa_process_wind_speed_data 0 [df0]) of
             Inl e \<Rightarrow> Inl e
           | Inr wsg \<Rightarrow>
               (case fst (wa_process_time_data today to_datetime 0
                            [df0\<lparr>WSD_rounded := Some (map round1 (WSD df0))\<rparr>]) of
                  Inl e \<Rightarrow> Inl e
                | Inr tg \<Rightarrow>
                    Inr (df0\<lparr>WSD_rounded := Some (map round1 (WSD df0))\<rparr>, wsg, tg,
                         fst (wa_error_analysis 0
                                [df0\<lparr>WSD_rounded := Some (map round1 (WSD df0))\<rparr>])))))"
proof (cases "wa_read_and_process_data strptime tbl rho d h")
  case (Inl e)
  then show ?thesis by (simp add: wa_main_def)
next
  case (Inr df0)
  let ?df1 = "df0\<lparr>WSD_rounded := Some (map round1 (WSD df0))\<rparr>"
  define wsg where "wsg = fst (wa_process_wind_speed_data 0 [df0])"
  define tg where "tg = fst (wa_process_time_data today to_datetime 0 [?df1])"
  define an where "an = fst (wa_error_analysis 0 [?df1])"
  have ws: "wa_process_wind_speed_data 0 [df0] = (wsg, [?df1])"
    using wa_ws_store [of 0 "[df0]"]
    by (simp add: prod_eq_iff get_frame_def set_frame_def wsg_def)
  obtain fs where "snd (wa_process_time_data today to_datetime 0 [?df1]) = [?df1] @ fs"
    using wa_time_store by blast
  then have tp: "wa_process_time_data today to_datetime 0 [?df1] = (tg, ?df1 # fs)"
    by (simp add: prod_eq_iff tg_def)
  have ea: "wa_error_analysis 0 (?df1 # fs) = (an, ?df1 # fs)"
    by (simp add: wa_error_analysis_def Let_def get_frame_def an_def)
  have "wa_main today to_datetime strptime tbl rho d h =
          (case wsg of
             Inl e \<Rightarrow> Inl e
           | Inr wsg' \<Rightarrow> (case tg of Inl e \<Rightarrow> Inl e | Inr tg' \<Rightarrow> Inr (?df1, wsg', tg', an)))"
    unfolding wa_main_def Inr new_frame_def
    by (simp add: ws tp ea get_frame_def split: sum.splits)
  then show ?thesis
    unfolding Inr wsg_def tg_def an_def by simp
qed

lemma wa_main_shift:
  "wa_main d2 to_datetime strptime tbl rho d h =
     (case wa_main d1 to_datetime strptime tbl rho d h of
        Inl e \<Rightarrow> Inl e
      | Inr (df, wsg, tg, an) \<Rightarrow> Inr (df, wsg, shift_days (d2 - d1) tg, an))"
proof (cases "wa_read_and_process_data strptime tbl rho d h")
  case (Inl e)
  then show ?thesis by (simp add: wa_main_steps)
next
  case (Inr df0)
  let ?df1 = "df0\<lparr>WSD_rounded := Some (map round1 (WSD df0))\<rparr>"
  from wa_read_first [OF Inr] have "case TM (get_frame [?df1] 0) of [] \<Rightarrow> True
      | c # cs \<Rightarrow> \<not> is_str c"
    by (simp add: get_frame_def)
  then have "fst (wa_process_time_data d2 to_datetime 0 [?df1])
           = map_sum id (shift_days (d2 - d1)) (fst (wa_process_time_data d1 to_datetime 0 [?df1]))"
    by (rule wa_time_shift)
  with Inr show ?thesis
    by (simp add: wa_main_steps split: sum.splits)
qed


lemma wa_read_cols:
  assumes "wa_read_and_process_data strptime tbl rho d h = Inr df"
  shows "\<exists>dc ac cp. Power_DC df = Some dc \<and> Power_AC df = Some ac \<and> Cp df = Some cp"
  using convert_TM_cols [OF assms [unfolded wa_read_and_process_data_def Let_def]]
  by simp

lemma wa_main_runs:
  assumes tm: "TM tbl = map TmTime ts" and ne: "ts \<noteq> []"
  shows "\<exists>df wsg tg an.
           wa_main today to_datetime strptime tbl rho d h = Inr (df, wsg, tg, an)
         \<and> map fst tg = sort (remdups (map (\<lambda>t. round_1min (combine today t)) ts))"
proof -
  from ne obtain t ts' where ts: "ts = t # ts'" by (cases ts) auto
  with tm have "TM tbl = TmTime t # map TmTime ts'" "\<not> is_str (TmTime t)" by simp_all
  from wa_read_TM_other [OF this] obtain df0 where
    r: "wa_read_and_process_data strptime tbl rho d h = Inr df0" and t0: "TM df0 = TM tbl"
    by blast
  from wa_read_cols [OF r] obtain dc ac cp where
    c: "Power_DC df0 = Some dc" "Power_AC df0 = Some ac" "Cp df0 = Some cp"
    by blast
  let ?df1 = "df0\<lparr>WSD_rounded := Some (map round1 (WSD df0))\<rparr>"
  have w: "fst (wa_process_wind_speed_data 0 [df0])
             = Inr (groupby_mean (map round1 (WSD (get_frame [df0] 0))) [dc, ac, cp])"
    by (rule wa_ws_fst) (simp_all add: get_frame_def c)
  have g: "fst (wa_process_time_data today to_datetime 0 [?df1])
     = Inr (groupby_mean (map (\<lambda>t. round_1min (combine today t)) ts)
              [dc, ac, WSD (get_frame [?df1] 0), cp])"
    by (rule wa_time_fst_time) (simp_all add: get_frame_def c t0 tm ne)
  show ?thesis
    unfolding wa_main_steps r
    by (simp add: w g groupby_mean_keys del: remdups.simps)
qed


text \<open>
  Claim C8, as the code has it. The outputs of the pipeline of \<^verbatim>\<open>wind_analysis.py\<close> are
  functions of the table, the turbine constants and the day of the run, which
  \<open>process_time_data\<close> reads from the clock. Two runs on the same table and constants end
  alike, with the same error or with the same frame, the same groups by wind speed and
  the same analysis; their groups by minute hold the same means in the same order, and
  the keys of the second run are those of the first moved by the number of days between
  the runs, so the two outputs are identical when the day is the same. On a table whose
  times are times of day the pipeline does return its outputs.
\<close>

theorem wa_main_day_of_run:
  "wa_main d2 to_datetime strptime tbl air_density rotor_diameter rotor_height =
     (case wa_main d1 to_datetime strptime tbl air_density rotor_diameter rotor_height of
        Inl e \<Rightarrow> Inl e
      | Inr (df, wsg, tg, an) \<Rightarrow> Inr (df, wsg, shift_days (d2 - d1) tg, an))
   \<and> shift_days 0 groups = groups
   \<and> (TM tbl = map TmTime ts \<and> ts \<noteq> []
      \<longrightarrow> (\<exists>df wsg tg an.
             wa_main d1 to_datetime strptime tbl air_density rotor_diameter rotor_height
               = Inr (df, wsg, tg, an)
           \<and> map fst tg = sort (remdups (map (\<lambda>t. round_1min (combine d1 t)) ts))))"
proof (intro conjI impI; (elim conjE)?)
  show "wa_main d2 to_datetime strptime tbl air_density rotor_diameter rotor_height =
     (case wa_main d1 to_datetime strptime tbl air_density rotor_diameter rotor_height of
        Inl e \<Rightarrow> Inl e
      | Inr (df, wsg, tg, an) \<Rightarrow> Inr (df, wsg, shift_days (d2 - d1) tg, an))"
    by (rule wa_main_shift)
next
  show "shift_days 0 groups = groups"
    by (simp add: shift_days_def)
next
  assume "TM tbl = map TmTime ts" and "ts \<noteq> []"
  then show "\<exists>df wsg tg an.
             wa_main d1 to_datetime strptime tbl air_density rotor_diameter rotor_height
               = Inr (df, wsg, tg, an)
           \<and> map fst tg = sort (remdups (map (\<lambda>t. round_1min (combine d1 t)) ts))"
    by (rule wa_main_runs)
qed

lemma sample_table_TM: "TM sample_table = map TmTime [hms 10 0 29, hms 10 0 31]"
  by (simp add: sample_table_def table_def)

lemma sample_keys:
  "sort (remdups (map (\<lambda>t. round_1min (combine 0 t)) [hms 10 0 29, hms 10 0 31]))
     = [36000000000, 36060000000]"
  "sort (remdups (map (\<lambda>t. round_1min (combine 1 t)) [hms 10 0 29, hms 10 0 31]))
     = [122400000000, 122460000000]"
  by (simp_all add: round_1min_examples)
    (simp_all add: combine_def usec_of_time_def hms_def usec_per_day_def)

text \<open>Two runs of the pipeline on the sample table, on consecutive days, do not return the
  same output.\<close>

theorem wa_main_two_days:
  "wa_main 0 failing_to_datetime sample_strptime sample_table 1.225 10 10
     \<noteq> wa_main 1 failing_to_datetime sample_strptime sample_table 1.225 10 10"
proof
  assume eq: "wa_main 0 failing_to_datetime sample_strptime sample_table 1.225 10 10
     = wa_main 1 failing_to_datetime sample_strptime sample_table 1.225 10 10"
  have ne: "[hms 10 0 29, hms 10 0 31] \<noteq> []" by simp
  from wa_main_runs [OF sample_table_TM ne, of 0 failing_to_datetime sample_strptime
      "1.225" 10 10]
  obtain df wsg tg an where
    a: "wa_main 0 failing_to_datetime sample_strptime sample_table 1.225 10 10
          = Inr (df, wsg, tg, an)"
    and ka: "map fst tg = [36000000000, 36060000000]"
    unfolding sample_keys by (elim exE conjE)
  from wa_main_runs [OF sample_table_TM ne, of 1 failing_to_datetime sample_strptime
      "1.225" 10 10]
  obtain df' wsg' tg' an' where
    b: "wa_main 1 failing_to_datetime sample_strptime sample_table 1.225 10 10
          = Inr (df', wsg', tg', an')"
    and kb: "map fst tg' = [122400000000, 122460000000]"
    unfolding sample_keys by (elim exE conjE)
  from eq a b have "tg = tg'" by simp
  with ka kb show False by simp
qed

theorem wa_main_day_of_run_witness:
  "\<exists>df wsg tg an.
     wa_main 0 failing_to_datetime sample_strptime sample_table 1.225 10 10
       = Inr (df, wsg, tg, an)
     \<and> map fst tg = [36000000000, 36060000000]
     \<and> wa_main 1 failing_to_datetime sample_strptime sample_table 1.225 10 10
       = Inr (df, wsg, shift_days 1 tg, an)"
proof -
  note th = wa_main_day_of_run [of 1 failing_to_datetime sample_strptime sample_table
      "1.225" 10 10 0 "[]" "[hms 10 0 29, hms 10 0 31]"]
  have h: "TM sample_table = map TmTime [hms 10 0 29, hms 10 0 31]
      \<and> [hms 10 0 29, hms 10 0 31] \<noteq> []"
    by (simp add: sample_table_TM)
  from th [THEN conjunct2, THEN conjunct2, THEN mp, OF h]
  obtain df wsg tg an where
    a: "wa_main 0 failing_to_datetime sample_strptime sample_table 1.225 10 10
          = Inr (df, wsg, tg, an)"
    and k: "map fst tg = [36000000000, 36060000000]"
    unfolding sample_keys by (elim exE conjE)
  from th [THEN conjunct1] a
  have b: "wa_main 1 failing_to_datetime sample_strptime sample_table 1.225 10 10
       = Inr (df, wsg, shift_days 1 tg, an)"
    by simp
  show ?thesis
    by (rule exI [of _ df], rule exI [of _ wsg], rule exI [of _ tg], rule exI [of _ an])
      (intro conjI a k b)
qed

end
